theory Spec2Isabelle
  imports Main
begin

section \<open>Strings, numbers and outcomes\<close>

text \<open>
  A JavaScript string is modelled as a \<^typ>\<open>string\<close>: a list of code units, of which the
  8-bit range is represented. The functions below look at a code unit only to decide
  whether it is an ASCII digit, an ASCII letter, a line terminator or white space.
  \<open>toUpperCase\<close> is modelled on ASCII letters and leaves every other code unit as it is;
  JavaScript applies the Unicode case mapping to code units beyond ASCII, which is
  outside this model. Every claim below applies \<open>toUpperCase\<close> to ASCII
  alphanumerics only: to a text that \<open>NON_ALPHANUM\<close> has stripped, or under a
  hypothesis that says so.
\<close>

definition codePointAt :: "char \<Rightarrow> nat" where
  "codePointAt c = of_char c"

definition in_range :: "char \<Rightarrow> char \<Rightarrow> char \<Rightarrow> bool" where
  "in_range lo hi c = (codePointAt lo \<le> codePointAt c \<and> codePointAt c \<le> codePointAt hi)"

definition is_digit :: "char \<Rightarrow> bool" where
  "is_digit c = in_range (CHR ''0'') (CHR ''9'') c"

definition is_upper :: "char \<Rightarrow> bool" where
  "is_upper c = in_range (CHR ''A'') (CHR ''Z'') c"

definition is_lower :: "char \<Rightarrow> bool" where
  "is_lower c = in_range (CHR ''a'') (CHR ''z'') c"

definition is_alnum :: "char \<Rightarrow> bool" where
  "is_alnum c = (is_digit c \<or> is_upper c \<or> is_lower c)"

text \<open>Line terminators (LF, CR) are what \<open>.\<close> in a regular expression does not match.\<close>

definition is_line_terminator :: "char \<Rightarrow> bool" where
  "is_line_terminator c = (codePointAt c = 10 \<or> codePointAt c = 13)"

text \<open>White space as \<open>parseInt\<close> skips it: TAB, LF, VT, FF, CR, SP, NBSP.\<close>

definition is_whitespace :: "char \<Rightarrow> bool" where
  "is_whitespace c = (codePointAt c \<in> {9, 10, 11, 12, 13, 32, 160})"

definition toUpperCase_char :: "char \<Rightarrow> char" where
  "toUpperCase_char c = (if is_lower c then char_of (codePointAt c - 32) else c)"

definition toUpperCase :: "string \<Rightarrow> string" where
  "toUpperCase s = map toUpperCase_char s"

text \<open>
  A JavaScript number, as far as this program computes with numbers: \<open>NaN\<close> or an
  integer. Every integer that occurs is read from at most 9 characters, so it is exact
  as a double. Negative zero is identified with zero: it prints as \<open>0\<close>, and is
  neither equal to 1 nor distinguished by any operation used here.
\<close>

datatype number = NaN | Num int

fun digit_char :: "nat \<Rightarrow> char" where
  "digit_char d = char_of (48 + d)"

fun decimal_string :: "nat \<Rightarrow> string" where
  "decimal_string n =
     (if n < 10 then [digit_char n] else decimal_string (n div 10) @ [digit_char (n mod 10)])"

declare decimal_string.simps [simp del]

text \<open>\<open>String(n)\<close>, as in a template literal \<open>`${n}`\<close> or \<open>n.toString()\<close>.\<close>

fun toString :: "number \<Rightarrow> string" where
  "toString NaN = ''NaN''"
| "toString (Num i) =
     (if i < 0 then CHR ''-'' # decimal_string (nat (- i)) else decimal_string (nat i))"

definition digit_value :: "char \<Rightarrow> nat" where
  "digit_value c = codePointAt c - 48"

definition decimal_value :: "string \<Rightarrow> nat" where
  "decimal_value s = foldl (\<lambda>a c. 10 * a + digit_value c) 0 s"

text \<open>
  \<open>Number.parseInt(inputString, 10)\<close>: skip leading white space, read an optional sign,
  then the longest prefix of decimal digits; \<open>NaN\<close> when that prefix is empty.
\<close>

definition parseInt :: "string \<Rightarrow> number" where
  "parseInt inputString =
     (let S = dropWhile is_whitespace inputString;
          sign = (if S \<noteq> [] \<and> hd S = CHR ''-'' then - 1 else 1);
          S' = (if S \<noteq> [] \<and> (hd S = CHR ''+'' \<or> hd S = CHR ''-'') then tl S else S);
          Z = takeWhile is_digit S'
      in if Z = [] then NaN else Num (sign * int (decimal_value Z)))"

text \<open>The remainder operator \<open>%\<close>: the sign of the result is the sign of the dividend.\<close>

fun rem :: "number \<Rightarrow> int \<Rightarrow> number" where
  "rem NaN m = NaN"
| "rem (Num a) m = (if m = 0 then NaN else Num (sgn a * (\<bar>a\<bar> mod \<bar>m\<bar>)))"

fun minus_number :: "int \<Rightarrow> number \<Rightarrow> number" where
  "minus_number a NaN = NaN"
| "minus_number a (Num b) = Num (a - b)"

text \<open>
  What a call does: it returns a value, throws, or does not return at all (the loop of
  \<open>iso7064Mod9710\<close> can run forever).
\<close>

datatype error =
    NoCountry string
  | ParseStructureError
  | InvalidIBAN
  | InvalidBBAN
  | TypeError

datatype 'a outcome = Returns 'a | Throws error | Diverges

fun bind :: "'a outcome \<Rightarrow> ('a \<Rightarrow> 'b outcome) \<Rightarrow> 'b outcome" where
  "bind (Returns x) f = f x"
| "bind (Throws e) f = Throws e"
| "bind Diverges f = Diverges"

section \<open>Checksum algorithms\<close>

text \<open>
  \<^verbatim>\<open>
  const iso7064Mod9710 = (iban: string): number => {
    let remainder = iban;
    let block;
    while (remainder.length > 2) {
      block = remainder.slice(0, 9);
      remainder = `${Number.parseInt(block, 10) % 97}${remainder.slice(block.length)}`;
    }
    return Number.parseInt(remainder, 10) % 97;
  };
  \<close>
  The loop is a partial function: \<open>None\<close> is a loop that never ends (as on \<open>abc\<close>,
  which becomes \<open>NaN\<close>, again of length 3).
\<close>

definition mod9710_step :: "string \<Rightarrow> string" where
  "mod9710_step remainder =
     (let block = take 9 remainder
      in toString (rem (parseInt block) 97) @ drop (length block) remainder)"

partial_function (option) mod9710_loop :: "string \<Rightarrow> string option" where
  "mod9710_loop remainder =
     (if length remainder > 2 then mod9710_loop (mod9710_step remainder) else Some remainder)"

declare mod9710_loop.simps [code]

definition iso7064Mod9710 :: "string \<Rightarrow> number outcome" where
  "iso7064Mod9710 iban =
     (case mod9710_loop iban of
        None \<Rightarrow> Diverges
      | Some remainder \<Rightarrow> Returns (rem (parseInt remainder) 97))"

text \<open>
  \<^verbatim>\<open>
  const iso13616Prepare = (iban: string): string => {
    let val = iban.toUpperCase();
    val = val.slice(4) + val.slice(0, 4);
    return val.replaceAll(/[A-Z]/g, match =>
      (match.codePointAt(0)! - A_CODE_POINT_AT + 10).toString());
  };
  \<close>
\<close>

definition A_CODE_POINT_AT :: nat where
  "A_CODE_POINT_AT = 65"

definition letter_to_digits :: "char \<Rightarrow> string" where
  "letter_to_digits c =
     (if is_upper c then toString (Num (int (codePointAt c) - int A_CODE_POINT_AT + 10)) else [c])"

text \<open>\<open>val.replaceAll(/[A-Z]/g, match => ...)\<close>: every character is replaced on its own.\<close>

definition replace_letters :: "string \<Rightarrow> string" where
  "replace_letters val = concat (map letter_to_digits val)"

definition iso13616Prepare :: "string \<Rightarrow> string" where
  "iso13616Prepare iban =
     (let val = toUpperCase iban;
          val = drop 4 val @ take 4 val
      in replace_letters val)"

section \<open>Structure compiler\<close>

text \<open>
  \<^verbatim>\<open>
  const parseStructure = (structure: string): RegExp => {
    const regex = structure.match(/.{3}/g)?.map(block => {
      let format;
      const pattern = block[0];
      const repeats = Number.parseInt(block.slice(1), 10);
      switch (pattern) {
        case 'A': { format = '0-9A-Za-z'; break; }
        case 'B': { format = '0-9A-Z'; break; }
        case 'C': { format = 'A-Za-z'; break; }
        case 'F': { format = '0-9'; break; }
        case 'L': { format = 'a-z'; break; }
        case 'U': { format = 'A-Z'; break; }
        case 'W': { format = '0-9a-z'; break; }
      }
      return `([${format}]{${repeats}})`;
    });
    if (!regex) {
      throw new Error('Something went wrong while parsing the structure');
    }
    return new RegExp(`^${regex.join('')}$`);
  };
  \<close>
\<close>

text \<open>
  \<open>parseStructure\<close> builds the source text of a regular expression,
  \<open>^([format]{repeats})...([format]{repeats})$\<close>, one group for each block of three
  characters. The model keeps what that expression is: a sequence of capture groups
  between the two anchors, each a sequence of atoms of fixed width. An atom is a
  character class repeated a given number of times, or a single pattern character.
\<close>

datatype atom = CharClass string nat | PatternChar char

type_synonym RegExp = "atom list list"

text \<open>Membership in a class \<open>[...]\<close> given by its source text: ranges \<open>a-b\<close> and single characters.\<close>

fun class_mem :: "string \<Rightarrow> char \<Rightarrow> bool" where
  "class_mem [] c = False"
| "class_mem [a] c = (a = c)"
| "class_mem [a, b] c = (a = c \<or> b = c)"
| "class_mem (a # b # hi # rest) c =
     (if b = CHR ''-'' then in_range a hi c \<or> class_mem rest c
      else a = c \<or> class_mem (b # hi # rest) c)"

fun atom_width :: "atom \<Rightarrow> nat" where
  "atom_width (CharClass format n) = n"
| "atom_width (PatternChar ch) = 1"

fun match_atom :: "atom \<Rightarrow> string \<Rightarrow> bool" where
  "match_atom (CharClass format n) s = (length s = n \<and> list_all (class_mem format) s)"
| "match_atom (PatternChar ch) s = (s = [ch])"

fun match_group :: "atom list \<Rightarrow> string \<Rightarrow> bool" where
  "match_group [] s = (s = [])"
| "match_group (a # as) s =
     (atom_width a \<le> length s \<and> match_atom a (take (atom_width a) s)
      \<and> match_group as (drop (atom_width a) s))"

definition group_width :: "atom list \<Rightarrow> nat" where
  "group_width g = sum_list (map atom_width g)"

text \<open>The captures of a match of the whole string, \<open>None\<close> when it does not match.\<close>

fun exec_groups :: "RegExp \<Rightarrow> string \<Rightarrow> string list option" where
  "exec_groups [] s = (if s = [] then Some [] else None)"
| "exec_groups (g # gs) s =
     (if group_width g \<le> length s \<and> match_group g (take (group_width g) s)
      then map_option ((#) (take (group_width g) s)) (exec_groups gs (drop (group_width g) s))
      else None)"

text \<open>
  \<open>regex.exec(s)\<close>: the match array (the whole match, then the captures) or \<open>null\<close>;
  \<open>regex.test(s)\<close> is \<open>regex.exec(s) !== null\<close>.
\<close>

definition RegExp_exec :: "RegExp \<Rightarrow> string \<Rightarrow> string list option" where
  "RegExp_exec regex s = map_option ((#) s) (exec_groups regex s)"

definition RegExp_test :: "RegExp \<Rightarrow> string \<Rightarrow> bool" where
  "RegExp_test regex s = (RegExp_exec regex s \<noteq> None)"

text \<open>
  \<open>structure.match(/.{3}/g)\<close>: the successive non-overlapping runs of three characters
  none of which is a line terminator; what is left over at the end is not part of any
  match. The result is \<open>null\<close> when there is no match, modelled as the empty list.
\<close>

fun match_every_three :: "string \<Rightarrow> string list" where
  "match_every_three (a # b # c # rest) =
     (if is_line_terminator a \<or> is_line_terminator b \<or> is_line_terminator c
      then match_every_three (b # c # rest)
      else [a, b, c] # match_every_three rest)"
| "match_every_three s = []"

text \<open>
  The \<open>switch\<close> on the class code has no default case: for any other code \<open>format\<close>
  stays \<open>undefined\<close>, which the template literal prints as the text \<open>undefined\<close>.
\<close>

definition block_format :: "char \<Rightarrow> string" where
  "block_format pattern =
     (if pattern = CHR ''A'' then ''0-9A-Za-z''
      else if pattern = CHR ''B'' then ''0-9A-Z''
      else if pattern = CHR ''C'' then ''A-Za-z''
      else if pattern = CHR ''F'' then ''0-9''
      else if pattern = CHR ''L'' then ''a-z''
      else if pattern = CHR ''U'' then ''A-Z''
      else if pattern = CHR ''W'' then ''0-9a-z''
      else ''undefined'')"

text \<open>
  The group \<open>([format]{repeats})\<close>. When \<open>repeats\<close> prints as decimal digits,
  \<open>{repeats}\<close> is a quantifier. Otherwise (\<open>NaN\<close>, or a negative number) the braces
  are not a quantifier and, the expression having no \<open>u\<close> flag, each of their
  characters is a pattern character that matches itself.
\<close>

definition compile_group :: "string \<Rightarrow> number \<Rightarrow> atom list" where
  "compile_group format repeats =
     (case repeats of
        Num n \<Rightarrow>
          if 0 \<le> n then [CharClass format (nat n)]
          else CharClass format 1 # map PatternChar (''{'' @ toString repeats @ ''}'')
      | NaN \<Rightarrow> CharClass format 1 # map PatternChar (''{'' @ toString repeats @ ''}''))"

definition compile_block :: "string \<Rightarrow> atom list" where
  "compile_block block =
     (let pattern = hd block;
          repeats = parseInt (drop 1 block);
          format = block_format pattern
      in compile_group format repeats)"

definition parseStructure :: "string \<Rightarrow> RegExp outcome" where
  "parseStructure structure =
     (case match_every_three structure of
        [] \<Rightarrow> Throws ParseStructureError
      | block # blocks \<Rightarrow> Returns (map compile_block (block # blocks)))"

section \<open>Country specification\<close>

text \<open>
  \<^verbatim>\<open>
  export class Specification {
    private cachedRegex: RegExp | undefined;
    constructor(public countryCode: string, private length: number,
                private structure: string, public example: string) {}
    public isValid(iban: string): boolean {
      return (this.length === iban.length &&
              this.countryCode === iban.slice(0, 2) &&
              this.regex().test(iban.slice(4)) &&
              iso7064Mod9710(iso13616Prepare(iban)) === 1);
    }
    public toBBAN(iban: string, separator: string): string {
      const regexMatch = this.regex().exec(iban.slice(4));
      if (!regexMatch) { throw new Error('Invalid IBAN'); }
      return regexMatch.slice(1).join(separator);
    }
    public fromBBAN(bban: string): string {
      if (!this.isValidBBAN(bban)) { throw new Error('Invalid BBAN'); }
      const remainder = iso7064Mod9710(iso13616Prepare(`${this.countryCode}00${bban}`));
      const checkDigit = `0${98 - remainder}`.slice(-2);
      return `${this.countryCode}${checkDigit}${bban}`;
    }
    public isValidBBAN(bban: string): boolean {
      return this.length - 4 === bban.length && this.regex().test(bban);
    }
    private regex(): RegExp {
      if (!this.cachedRegex) { this.cachedRegex = parseStructure(this.structure); }
      return this.cachedRegex;
    }
  }
  \<close>
  The declared length is an integer in every use; it is an \<^typ>\<open>int\<close>, so that
  \<open>this.length - 4\<close> can be negative.
\<close>

record Specification =
  countryCode :: string
  length_iban :: int
  "structure" :: string
  example :: string

definition new_Specification :: "string \<Rightarrow> int \<Rightarrow> string \<Rightarrow> string \<Rightarrow> Specification" where
  "new_Specification cc len struct ex =
     \<lparr>countryCode = cc, length_iban = len, structure = struct, example = ex\<rparr>"

text \<open>
  \<open>regex()\<close> caches the result of \<open>parseStructure\<close>, a pure function of the
  structure; a call that throws caches nothing. Every call therefore has the outcome of
  \<open>parseStructure (structure spec)\<close>.
\<close>

definition regex :: "Specification \<Rightarrow> RegExp outcome" where
  "regex spec = parseStructure (structure spec)"

text \<open>\<open>&&\<close> evaluates its right operand only when the left one is true.\<close>

definition Specification_isValid :: "Specification \<Rightarrow> string \<Rightarrow> bool outcome" where
  "Specification_isValid spec iban =
     (if length_iban spec \<noteq> int (length iban) then Returns False
      else if countryCode spec \<noteq> take 2 iban then Returns False
      else bind (regex spec) (\<lambda>r.
        if \<not> RegExp_test r (drop 4 iban) then Returns False
        else bind (iso7064Mod9710 (iso13616Prepare iban)) (\<lambda>m. Returns (m = Num 1))))"

fun join :: "string \<Rightarrow> string list \<Rightarrow> string" where
  "join separator [] = []"
| "join separator [x] = x"
| "join separator (x # y # ys) = x @ separator @ join separator (y # ys)"

definition Specification_toBBAN :: "Specification \<Rightarrow> string \<Rightarrow> string \<Rightarrow> string outcome" where
  "Specification_toBBAN spec iban separator =
     bind (regex spec) (\<lambda>r.
       case RegExp_exec r (drop 4 iban) of
         None \<Rightarrow> Throws InvalidIBAN
       | Some regexMatch \<Rightarrow> Returns (join separator (drop 1 regexMatch)))"

definition Specification_isValidBBAN :: "Specification \<Rightarrow> string \<Rightarrow> bool outcome" where
  "Specification_isValidBBAN spec bban =
     (if length_iban spec - 4 \<noteq> int (length bban) then Returns False
      else bind (regex spec) (\<lambda>r. Returns (RegExp_test r bban)))"

text \<open>\<open>s.slice(-2)\<close>: the last two characters, or all of \<open>s\<close> when it is shorter.\<close>

definition slice_last2 :: "string \<Rightarrow> string" where
  "slice_last2 s = drop (length s - 2) s"

definition Specification_fromBBAN :: "Specification \<Rightarrow> string \<Rightarrow> string outcome" where
  "Specification_fromBBAN spec bban =
     bind (Specification_isValidBBAN spec bban) (\<lambda>ok.
       if \<not> ok then Throws InvalidBBAN
       else bind (iso7064Mod9710 (iso13616Prepare (countryCode spec @ ''00'' @ bban)))
         (\<lambda>remainder.
            let checkDigit = slice_last2 (''0'' @ toString (minus_number 98 remainder))
            in Returns (countryCode spec @ checkDigit @ bban)))"

section \<open>Country registry\<close>

definition COUNTRIES :: "(string \<times> Specification) list" where
  "COUNTRIES =
    [(''AD'', new_Specification ''AD'' 24 ''F04F04A12'' ''AD1200012030200359100100''),
     (''AE'', new_Specification ''AE'' 23 ''F03F16'' ''AE070331234567890123456''),
     (''AL'', new_Specification ''AL'' 28 ''F08A16'' ''AL47212110090000000235698741''),
     (''AT'', new_Specification ''AT'' 20 ''F05F11'' ''AT611904300234573201''),
     (''AZ'', new_Specification ''AZ'' 28 ''U04A20'' ''AZ21NABZ00000000137010001944''),
     (''BA'', new_Specification ''BA'' 20 ''F03F03F08F02'' ''BA391290079401028494''),
     (''BE'', new_Specification ''BE'' 16 ''F03F07F02'' ''BE68539007547034''),
     (''BG'', new_Specification ''BG'' 22 ''U04F04F02A08'' ''BG80BNBG96611020345678''),
     (''BH'', new_Specification ''BH'' 22 ''U04A14'' ''BH67BMAG00001299123456''),
     (''BR'', new_Specification ''BR'' 29 ''F08F05F10U01A01'' ''BR9700360305000010009795493P1''),
     (''BY'', new_Specification ''BY'' 28 ''A04F04A16'' ''BY13NBRB3600900000002Z00AB00''),
     (''CH'', new_Specification ''CH'' 21 ''F05A12'' ''CH9300762011623852957''),
     (''CR'', new_Specification ''CR'' 22 ''F04F14'' ''CR72012300000171549015''),
     (''CY'', new_Specification ''CY'' 28 ''F03F05A16'' ''CY17002001280000001200527600''),
     (''CZ'', new_Specification ''CZ'' 24 ''F04F06F10'' ''CZ6508000000192000145399''),
     (''DE'', new_Specification ''DE'' 22 ''F08F10'' ''DE89370400440532013000''),
     (''DK'', new_Specification ''DK'' 18 ''F04F09F01'' ''DK5000400440116243''),
     (''DO'', new_Specification ''DO'' 28 ''U04F20'' ''DO28BAGR00000001212453611324''),
     (''EE'', new_Specification ''EE'' 20 ''F02F02F11F01'' ''EE382200221020145685''),
     (''EG'', new_Specification ''EG'' 29 ''F04F04F17'' ''EG800002000156789012345180002''),
     (''ES'', new_Specification ''ES'' 24 ''F04F04F01F01F10'' ''ES9121000418450200051332''),
     (''FI'', new_Specification ''FI'' 18 ''F06F07F01'' ''FI2112345600000785''),
     (''FO'', new_Specification ''FO'' 18 ''F04F09F01'' ''FO6264600001631634''),
     (''FR'', new_Specification ''FR'' 27 ''F05F05A11F02'' ''FR1420041010050500013M02606''),
     (''GB'', new_Specification ''GB'' 22 ''U04F06F08'' ''GB29NWBK60161331926819''),
     (''GE'', new_Specification ''GE'' 22 ''U02F16'' ''GE29NB0000000101904917''),
     (''GI'', new_Specification ''GI'' 23 ''U04A15'' ''GI75NWBK000000007099453''),
     (''GL'', new_Specification ''GL'' 18 ''F04F09F01'' ''GL8964710001000206''),
     (''GR'', new_Specification ''GR'' 27 ''F03F04A16'' ''GR1601101250000000012300695''),
     (''GT'', new_Specification ''GT'' 28 ''A04A20'' ''GT82TRAJ01020000001210029690''),
     (''HR'', new_Specification ''HR'' 21 ''F07F10'' ''HR1210010051863000160''),
     (''HU'', new_Specification ''HU'' 28 ''F03F04F01F15F01'' ''HU42117730161111101800000000''),
     (''IE'', new_Specification ''IE'' 22 ''U04F06F08'' ''IE29AIBK93115212345678''),
     (''IL'', new_Specification ''IL'' 23 ''F03F03F13'' ''IL620108000000099999999''),
     (''IS'', new_Specification ''IS'' 26 ''F04F02F06F10'' ''IS140159260076545510730339''),
     (''IT'', new_Specification ''IT'' 27 ''U01F05F05A12'' ''IT60X0542811101000000123456''),
     (''IQ'', new_Specification ''IQ'' 23 ''U04F03A12'' ''IQ98NBIQ850123456789012''),
     (''JO'', new_Specification ''JO'' 30 ''A04F22'' ''JO15AAAA1234567890123456789012''),
     (''KW'', new_Specification ''KW'' 30 ''U04A22'' ''KW81CBKU0000000000001234560101''),
     (''KZ'', new_Specification ''KZ'' 20 ''F03A13'' ''KZ86125KZT5004100100''),
     (''LB'', new_Specification ''LB'' 28 ''F04A20'' ''LB62099900000001001901229114''),
     (''LC'', new_Specification ''LC'' 32 ''U04F24'' ''LC07HEMM000100010012001200013015''),
     (''LI'', new_Specification ''LI'' 21 ''F05A12'' ''LI21088100002324013AA''),
     (''LT'', new_Specification ''LT'' 20 ''F05F11'' ''LT121000011101001000''),
     (''LU'', new_Specification ''LU'' 20 ''F03A13'' ''LU280019400644750000''),
     (''MC'', new_Specification ''MC'' 27 ''F05F05A11F02'' ''MC5811222000010123456789030''),
     (''MD'', new_Specification ''MD'' 24 ''U02A18'' ''MD24AG000225100013104168''),
     (''ME'', new_Specification ''ME'' 22 ''F03F13F02'' ''ME25505000012345678951''),
     (''MK'', new_Specification ''MK'' 19 ''F03A10F02'' ''MK07250120000058984''),
     (''MR'', new_Specification ''MR'' 27 ''F05F05F11F02'' ''MR1300020001010000123456753''),
     (''MT'', new_Specification ''MT'' 31 ''U04F05A18'' ''MT84MALT011000012345MTLCAST001S''),
     (''MU'', new_Specification ''MU'' 30 ''U04F02F02F12F03U03'' ''MU17BOMM0101101030300200000MUR''),
     (''NL'', new_Specification ''NL'' 18 ''U04F10'' ''NL91ABNA0417164300''),
     (''NO'', new_Specification ''NO'' 15 ''F04F06F01'' ''NO9386011117947''),
     (''PK'', new_Specification ''PK'' 24 ''U04A16'' ''PK36SCBL0000001123456702''),
     (''PL'', new_Specification ''PL'' 28 ''F08F16'' ''PL61109010140000071219812874''),
     (''PS'', new_Specification ''PS'' 29 ''U04A21'' ''PS92PALS000000000400123456702''),
     (''PT'', new_Specification ''PT'' 25 ''F04F04F11F02'' ''PT50000201231234567890154''),
     (''QA'', new_Specification ''QA'' 29 ''U04A21'' ''QA30AAAA123456789012345678901''),
     (''RO'', new_Specification ''RO'' 24 ''U04A16'' ''RO49AAAA1B31007593840000''),
     (''RS'', new_Specification ''RS'' 22 ''F03F13F02'' ''RS35260005601001611379''),
     (''SA'', new_Specification ''SA'' 24 ''F02A18'' ''SA0380000000608010167519''),
     (''SC'', new_Specification ''SC'' 31 ''U04F04F16U03'' ''SC18SSCB11010000000000001497USD''),
     (''SE'', new_Specification ''SE'' 24 ''F03F16F01'' ''SE4550000000058398257466''),
     (''SI'', new_Specification ''SI'' 19 ''F05F08F02'' ''SI56263300012039086''),
     (''SK'', new_Specification ''SK'' 24 ''F04F06F10'' ''SK3112000000198742637541''),
     (''SM'', new_Specification ''SM'' 27 ''U01F05F05A12'' ''SM86U0322509800000000270100''),
     (''ST'', new_Specification ''ST'' 25 ''F08F11F02'' ''ST68000100010051845310112''),
     (''SV'', new_Specification ''SV'' 28 ''U04F20'' ''SV62CENR00000000000000700025''),
     (''TL'', new_Specification ''TL'' 23 ''F03F14F02'' ''TL380080012345678910157''),
     (''TN'', new_Specification ''TN'' 24 ''F02F03F13F02'' ''TN5910006035183598478831''),
     (''TR'', new_Specification ''TR'' 26 ''F05F01A16'' ''TR330006100519786457841326''),
     (''UA'', new_Specification ''UA'' 29 ''F25'' ''UA511234567890123456789012345''),
     (''VA'', new_Specification ''VA'' 22 ''F18'' ''VA59001123000012345678''),
     (''VG'', new_Specification ''VG'' 24 ''U04F16'' ''VG96VPVG0000012345678901''),
     (''XK'', new_Specification ''XK'' 20 ''F04F10F02'' ''XK051212012345678906''),
     (''AO'', new_Specification ''AO'' 25 ''F21'' ''AO69123456789012345678901''),
     (''BF'', new_Specification ''BF'' 27 ''F23'' ''BF2312345678901234567890123''),
     (''BI'', new_Specification ''BI'' 16 ''F12'' ''BI41123456789012''),
     (''BJ'', new_Specification ''BJ'' 28 ''F24'' ''BJ39123456789012345678901234''),
     (''CI'', new_Specification ''CI'' 28 ''U02F22'' ''CI70CI1234567890123456789012''),
     (''CM'', new_Specification ''CM'' 27 ''F23'' ''CM9012345678901234567890123''),
     (''CV'', new_Specification ''CV'' 25 ''F21'' ''CV30123456789012345678901''),
     (''DZ'', new_Specification ''DZ'' 24 ''F20'' ''DZ8612345678901234567890''),
     (''IR'', new_Specification ''IR'' 26 ''F22'' ''IR861234568790123456789012''),
     (''MG'', new_Specification ''MG'' 27 ''F23'' ''MG1812345678901234567890123''),
     (''ML'', new_Specification ''ML'' 28 ''U01F23'' ''ML15A12345678901234567890123''),
     (''MZ'', new_Specification ''MZ'' 25 ''F21'' ''MZ25123456789012345678901''),
     (''SN'', new_Specification ''SN'' 28 ''U01F23'' ''SN52A12345678901234567890123''),
     (''GF'', new_Specification ''GF'' 27 ''F05F05A11F02'' ''GF121234512345123456789AB13''),
     (''GP'', new_Specification ''GP'' 27 ''F05F05A11F02'' ''GP791234512345123456789AB13''),
     (''MQ'', new_Specification ''MQ'' 27 ''F05F05A11F02'' ''MQ221234512345123456789AB13''),
     (''RE'', new_Specification ''RE'' 27 ''F05F05A11F02'' ''RE131234512345123456789AB13''),
     (''PF'', new_Specification ''PF'' 27 ''F05F05A11F02'' ''PF281234512345123456789AB13''),
     (''TF'', new_Specification ''TF'' 27 ''F05F05A11F02'' ''TF891234512345123456789AB13''),
     (''YT'', new_Specification ''YT'' 27 ''F05F05A11F02'' ''YT021234512345123456789AB13''),
     (''NC'', new_Specification ''NC'' 27 ''F05F05A11F02'' ''NC551234512345123456789AB13''),
     (''BL'', new_Specification ''BL'' 27 ''F05F05A11F02'' ''BL391234512345123456789AB13''),
     (''MF'', new_Specification ''MF'' 27 ''F05F05A11F02'' ''MF551234512345123456789AB13''),
     (''PM'', new_Specification ''PM'' 27 ''F05F05A11F02'' ''PM071234512345123456789AB13''),
     (''WF'', new_Specification ''WF'' 27 ''F05F05A11F02'' ''WF621234512345123456789AB13'')]"

text \<open>
  \<open>COUNTRIES\<close> is a plain object, so \<open>COUNTRIES[countryCode]\<close> also finds what the
  object inherits from \<open>Object.prototype\<close>: a function or an object, which is not a
  \<open>Specification\<close> and has none of its methods.
\<close>

definition Object_prototype_keys :: "string list" where
  "Object_prototype_keys =
    [''constructor'', ''hasOwnProperty'', ''isPrototypeOf'', ''propertyIsEnumerable'',
     ''toLocaleString'', ''toString'', ''valueOf'', ''__defineGetter__'',
     ''__defineSetter__'', ''__lookupGetter__'', ''__lookupSetter__'', ''__proto__'']"

datatype property = Spec Specification | Inherited

definition COUNTRIES_get :: "string \<Rightarrow> property option" where
  "COUNTRIES_get countryCode' =
     (case map_of COUNTRIES countryCode' of
        Some spec \<Rightarrow> Some (Spec spec)
      | None \<Rightarrow> if countryCode' \<in> set Object_prototype_keys then Some Inherited else None)"

section \<open>Public operations\<close>

text \<open>
  \<^verbatim>\<open>
  export const getCountry = (countryCode: string): Specification => {
    const countryStructure = COUNTRIES[countryCode];
    if (!countryStructure) { throw new Error(`No country with code ${countryCode}`); }
    return countryStructure;
  };
  export const electronicFormat = (iban: string): string =>
    iban.replaceAll(NON_ALPHANUM, '').toUpperCase();
  export const isValid = (iban: string): boolean => {
    if (!isString(iban)) return false;
    const ibanFormatted = electronicFormat(iban);
    try {
      const countryStructure = getCountry(ibanFormatted.slice(0, 2));
      return countryStructure.isValid(ibanFormatted);
    } catch { return false; }
  };
  export const toBBAN = (iban: string, separator: string = ' '): string => {
    const ibanFormatted = electronicFormat(iban);
    return getCountry(ibanFormatted.slice(0, 2)).toBBAN(ibanFormatted, separator);
  };
  export const fromBBAN = (countryCode: string, bban: string): string =>
    getCountry(countryCode).fromBBAN(electronicFormat(bban));
  export const isValidBBAN = (countryCode: string, bban: string): boolean => {
    if (!isString(bban)) return false;
    return getCountry(countryCode).isValidBBAN(electronicFormat(bban));
  };
  export const printFormat = (iban: string, separator: string = ' '): string =>
    electronicFormat(iban).replaceAll(EVERY_FOUR_CHARS, `$1${separator}`);
  \<close>
  The arguments that \<open>isString\<close> guards are values of any type; the other arguments
  have their declared type, \<open>string\<close>.
\<close>

definition getCountry :: "string \<Rightarrow> property outcome" where
  "getCountry countryCode' =
     (case COUNTRIES_get countryCode' of
        None \<Rightarrow> Throws (NoCountry countryCode')
      | Some countryStructure \<Rightarrow> Returns countryStructure)"

text \<open>Calling a method of \<open>Specification\<close> on a value that is not one is a \<open>TypeError\<close>.\<close>

fun call_method :: "property \<Rightarrow> (Specification \<Rightarrow> 'a outcome) \<Rightarrow> 'a outcome" where
  "call_method (Spec spec) method = method spec"
| "call_method Inherited method = Throws TypeError"

text \<open>
  \<open>NON_ALPHANUM = /[^\da-z]/gi\<close>: with the \<open>i\<close> flag the class \<open>[\da-z]\<close> holds the
  digits and the ASCII letters of both cases, and no other code unit.
\<close>

definition NON_ALPHANUM :: "char \<Rightarrow> bool" where
  "NON_ALPHANUM c = (\<not> (is_digit c \<or> is_lower c \<or> is_upper c))"

definition electronicFormat :: "string \<Rightarrow> string" where
  "electronicFormat iban = toUpperCase (filter (\<lambda>c. \<not> NON_ALPHANUM c) iban)"

text \<open>
  An argument of any type: a string, a \<open>String\<close> object (which has the string methods
  of its value), or any other value.
\<close>

datatype js_value = JString string | JStringObject string | JOther

fun isString :: "js_value \<Rightarrow> bool" where
  "isString (JString s) = True"
| "isString (JStringObject s) = True"
| "isString JOther = False"

fun string_of :: "js_value \<Rightarrow> string" where
  "string_of (JString s) = s"
| "string_of (JStringObject s) = s"
| "string_of JOther = []"

text \<open>\<open>try { ... } catch { return false; }\<close>\<close>

fun catch_false :: "bool outcome \<Rightarrow> bool outcome" where
  "catch_false (Throws e) = Returns False"
| "catch_false r = r"

definition isValid :: "js_value \<Rightarrow> bool outcome" where
  "isValid iban =
     (if \<not> isString iban then Returns False
      else let ibanFormatted = electronicFormat (string_of iban)
           in catch_false
                (bind (getCountry (take 2 ibanFormatted)) (\<lambda>countryStructure.
                   call_method countryStructure (\<lambda>spec. Specification_isValid spec ibanFormatted))))"

text \<open>An omitted \<open>separator\<close> (\<open>None\<close>) takes the default value, one space.\<close>

definition default_separator :: "string option \<Rightarrow> string" where
  "default_separator separator = (case separator of None \<Rightarrow> '' '' | Some s \<Rightarrow> s)"

definition toBBAN :: "string \<Rightarrow> string option \<Rightarrow> string outcome" where
  "toBBAN iban separator =
     (let ibanFormatted = electronicFormat iban
      in bind (getCountry (take 2 ibanFormatted)) (\<lambda>countryStructure.
           call_method countryStructure
             (\<lambda>spec. Specification_toBBAN spec ibanFormatted (default_separator separator))))"

definition fromBBAN :: "string \<Rightarrow> string \<Rightarrow> string outcome" where
  "fromBBAN countryCode' bban =
     bind (getCountry countryCode') (\<lambda>countryStructure.
       call_method countryStructure (\<lambda>spec. Specification_fromBBAN spec (electronicFormat bban)))"

definition isValidBBAN :: "string \<Rightarrow> js_value \<Rightarrow> bool outcome" where
  "isValidBBAN countryCode' bban =
     (if \<not> isString bban then Returns False
      else bind (getCountry countryCode') (\<lambda>countryStructure.
             call_method countryStructure
               (\<lambda>spec. Specification_isValidBBAN spec (electronicFormat (string_of bban)))))"

text \<open>
  \<open>printFormat\<close> replaces every match of \<open>EVERY_FOUR_CHARS = /(.{4})(?!$)/g\<close> by
  the replacement pattern \<open>`$1${separator}`\<close>. The separator is part of the pattern,
  so a \<open>$\<close> in it is read as the replacement patterns of \<open>String.prototype.replace\<close>
  are: \<open>$$\<close> is a dollar sign, \<open>$&\<close> the match, \<open>$`\<close> and \<open>$'\<close> the text before
  and after the match, \<open>$n\<close> and \<open>$nn\<close> the capture of that number when there is one
  (a two-digit number beyond the last capture is read as one digit followed by a
  literal digit); any other \<open>$\<close> stands for itself.
\<close>

definition capture_ref :: "string list \<Rightarrow> nat \<Rightarrow> string \<Rightarrow> string" where
  "capture_ref captures index ref =
     (if 1 \<le> index \<and> index \<le> length captures then captures ! (index - 1) else ref)"

fun GetSubstitution :: "string \<Rightarrow> string \<Rightarrow> string \<Rightarrow> string list \<Rightarrow> string \<Rightarrow> string" where
  "GetSubstitution matched preceding following captures [] = []"
| "GetSubstitution matched preceding following captures [c] = [c]"
| "GetSubstitution matched preceding following captures (c # d # rest) =
     (if c \<noteq> CHR ''$'' then c # GetSubstitution matched preceding following captures (d # rest)
      else if d = CHR ''$'' then CHR ''$'' # GetSubstitution matched preceding following captures rest
      else if d = CHR ''&'' then matched @ GetSubstitution matched preceding following captures rest
      else if d = CHR 0x60 then preceding @ GetSubstitution matched preceding following captures rest
      else if d = CHR 0x27 then following @ GetSubstitution matched preceding following captures rest
      else if is_digit d then
        (case rest of
           [] \<Rightarrow> capture_ref captures (digit_value d) [c, d]
         | e # rest' \<Rightarrow>
             if is_digit e \<and> 10 * digit_value d + digit_value e \<le> length captures
             then capture_ref captures (10 * digit_value d + digit_value e) [c, d, e]
                    @ GetSubstitution matched preceding following captures rest'
             else capture_ref captures (digit_value d) [c, d]
                    @ GetSubstitution matched preceding following captures (e # rest'))
      else c # GetSubstitution matched preceding following captures (d # rest))"

text \<open>
  The scan of \<open>replaceAll(EVERY_FOUR_CHARS, template)\<close>, with the text already passed in
  \<open>preceding\<close>: four characters, none a line terminator, that are not the last of the
  string are a match (and its only capture); the scan goes on after them. Where there
  is no match the character is copied and the scan moves one character on.
\<close>

fun replace_every_four :: "string \<Rightarrow> string \<Rightarrow> string \<Rightarrow> string" where
  "replace_every_four template preceding (a # b # c # d # e # rest) =
     (if is_line_terminator a \<or> is_line_terminator b \<or> is_line_terminator c
         \<or> is_line_terminator d
      then a # replace_every_four template (preceding @ [a]) (b # c # d # e # rest)
      else GetSubstitution [a, b, c, d] preceding (e # rest) [[a, b, c, d]] template
             @ replace_every_four template (preceding @ [a, b, c, d]) (e # rest))"
| "replace_every_four template preceding s = s"

definition printFormat :: "string \<Rightarrow> string option \<Rightarrow> string" where
  "printFormat iban separator =
     replace_every_four (''$1'' @ default_separator separator) [] (electronicFormat iban)"

section \<open>Notions of the specification\<close>

text \<open>
  The streaming reduction in the words of the specification: while the string is longer
  than two characters, the prefix of up to 9 digits is replaced by the decimal numeral
  of its value modulo 97, in front of the untouched suffix.
\<close>

function streaming_reduce :: "string \<Rightarrow> string" where
  "streaming_reduce s =
     (if length s \<le> 2 then s
      else streaming_reduce (decimal_string (decimal_value (take 9 s) mod 97) @ drop 9 s))"
  by pat_completeness auto
termination
proof (relation "measure length")
  show "wf (measure length)"
    by simp
next
  fix s :: string
  assume long: "\<not> length s \<le> 2"
  have two: "length (decimal_string m) \<le> 2" if "m < 100" for m
  proof (cases "m < 10")
    case True
    then show ?thesis
      by (subst decimal_string.simps) simp
  next
    case False
    with that have "m div 10 < 10"
      by simp
    then have "decimal_string (m div 10) = [digit_char (m div 10)]"
      by (subst decimal_string.simps) simp
    with False show ?thesis
      by (subst decimal_string.simps) simp
  qed
  have "decimal_value (take 9 s) mod 97 < 100"
    by (rule less_trans [OF mod_less_divisor]) simp_all
  from two [OF this] long
  show "(decimal_string (decimal_value (take 9 s) mod 97) @ drop 9 s, s) \<in> measure length"
    by simp
qed

declare streaming_reduce.simps [simp del]

text \<open>A string in groups of four characters; the last group holds what is left.\<close>

fun group_four :: "string \<Rightarrow> string list" where
  "group_four (a # b # c # d # e # rest) = [a, b, c, d] # group_four (e # rest)"
| "group_four s = [s]"

text \<open>
  A structure descriptor as the data model has it: blocks of three characters, each one
  of the seven class codes followed by a length of two decimal digits.
\<close>

definition class_code :: "char \<Rightarrow> bool" where
  "class_code c = (c \<in> set ''ABCFLUW'')"

fun wellformed :: "string \<Rightarrow> bool" where
  "wellformed [] = True"
| "wellformed (k # d1 # d2 # rest) =
     (class_code k \<and> is_digit d1 \<and> is_digit d2 \<and> wellformed rest)"
| "wellformed s = False"

fun block_lengths :: "string \<Rightarrow> nat list" where
  "block_lengths (k # d1 # d2 # rest) = decimal_value [d1, d2] # block_lengths rest"
| "block_lengths s = []"

text \<open>The check digits of an IBAN: its third and fourth character.\<close>

definition check_digits :: "string \<Rightarrow> string" where
  "check_digits iban = take 2 (drop 2 iban)"

text \<open>A number below 100 as two decimal digits, padded with a zero.\<close>

definition zero_pad2 :: "nat \<Rightarrow> string" where
  "zero_pad2 n = (if n < 10 then CHR ''0'' # decimal_string n else decimal_string n)"

text \<open>
  A country specification as the data model has it: a country code of two uppercase
  letters, a well-formed structure descriptor that is not empty, and a declared length
  that is 4 more than the sum of the block lengths.
\<close>

definition country_specification :: "Specification \<Rightarrow> bool" where
  "country_specification spec =
     (length (countryCode spec) = 2 \<and> list_all is_upper (countryCode spec)
      \<and> wellformed (structure spec) \<and> structure spec \<noteq> []
      \<and> length_iban spec = 4 + int (sum_list (block_lengths (structure spec))))"

section \<open>Characters, numerals and \<open>parseInt\<close>\<close>

lemmas char_defs = is_digit_def is_upper_def is_lower_def is_alnum_def in_range_def
  codePointAt_def is_whitespace_def is_line_terminator_def

lemma decimal_fold_acc:
  "foldl (\<lambda>a c. 10 * a + digit_value c) acc s =
     acc * 10 ^ length s + foldl (\<lambda>a c. 10 * a + digit_value c) 0 s"
proof (induction s arbitrary: acc)
  case Nil
  then show ?case by simp
next
  case (Cons x xs)
  show ?case
    using Cons.IH [of "10 * acc + digit_value x"] Cons.IH [of "digit_value x"]
    by (simp add: algebra_simps)
qed

lemma decimal_value_Nil: "decimal_value [] = 0"
  by (simp add: decimal_value_def)

lemma decimal_value_append:
  "decimal_value (a @ b) = decimal_value a * 10 ^ length b + decimal_value b"
  unfolding decimal_value_def by (simp add: decimal_fold_acc [of "foldl _ 0 a"])

lemma decimal_value_single: "decimal_value [c] = digit_value c"
  by (simp add: decimal_value_def)

lemma digit_char_is_digit: "d < 10 \<Longrightarrow> is_digit (digit_char d)"
  by (simp add: char_defs)

lemma digit_value_digit_char: "d < 10 \<Longrightarrow> digit_value (digit_char d) = d"
  by (simp add: digit_value_def char_defs)

lemma decimal_string_digits: "list_all is_digit (decimal_string n)"
proof (induction n rule: decimal_string.induct)
  case (1 n)
  show ?case
  proof (cases "n < 10")
    case True
    then show ?thesis
      by (subst decimal_string.simps) (simp add: digit_char_is_digit del: digit_char.simps)
  next
    case False
    then show ?thesis
      using 1 by (subst decimal_string.simps) (simp add: digit_char_is_digit del: digit_char.simps)
  qed
qed

lemma decimal_string_not_Nil: "decimal_string n \<noteq> []"
  by (subst decimal_string.simps) simp

lemma decimal_value_decimal_string: "decimal_value (decimal_string n) = n"
proof (induction n rule: decimal_string.induct)
  case (1 n)
  show ?case
  proof (cases "n < 10")
    case True
    then show ?thesis
      by (subst decimal_string.simps)
        (simp add: decimal_value_single digit_value_digit_char del: digit_char.simps)
  next
    case False
    then show ?thesis
      using 1 by (subst decimal_string.simps)
        (simp add: decimal_value_append decimal_value_single digit_value_digit_char
          del: digit_char.simps)
  qed
qed

lemma length_decimal_string_small: "n < 10 \<Longrightarrow> length (decimal_string n) = 1"
  by (subst decimal_string.simps) simp

lemma length_decimal_string_two: "10 \<le> n \<Longrightarrow> n < 100 \<Longrightarrow> length (decimal_string n) = 2"
  by (subst decimal_string.simps) (simp add: length_decimal_string_small)

lemma length_decimal_string_le2: "n < 100 \<Longrightarrow> length (decimal_string n) \<le> 2"
  using length_decimal_string_small [of n] length_decimal_string_two [of n]
  by (cases "n < 10") simp_all

lemma digit_not_whitespace: "is_digit c \<Longrightarrow> \<not> is_whitespace c"
  by (auto simp: char_defs)

lemma digit_not_sign: "is_digit c \<Longrightarrow> c \<noteq> CHR ''+'' \<and> c \<noteq> CHR ''-''"
  by (auto simp: char_defs)

lemma parseInt_digits:
  assumes "s \<noteq> []" and "list_all is_digit s"
  shows "parseInt s = Num (int (decimal_value s))"
proof -
  from assms obtain c cs where s: "s = c # cs" by (cases s) auto
  with assms have c: "is_digit c" by simp
  have dw: "dropWhile is_whitespace s = s"
    using s c digit_not_whitespace by simp
  have tw: "takeWhile is_digit cs = cs"
    using assms(2) s by (simp add: list_all_iff)
  show ?thesis
    unfolding parseInt_def dw using c digit_not_sign [OF c]
    by (simp add: s tw)
qed

lemma parseInt_Nil: "parseInt [] = NaN"
  by (simp add: parseInt_def)

lemma rem_nat: "rem (Num (int n)) 97 = Num (int (n mod 97))"
  by (simp add: zmod_int sgn_if)

section \<open>The streaming reduction modulo 97\<close>

lemma loop_continue: "length r > 2 \<Longrightarrow> mod9710_loop r = mod9710_loop (mod9710_step r)"
  by (subst mod9710_loop.simps) simp

lemma loop_done: "length r \<le> 2 \<Longrightarrow> mod9710_loop r = Some r"
  by (subst mod9710_loop.simps) simp

lemma list_all_take: "list_all P s \<Longrightarrow> list_all P (take n s)"
  by (auto simp: list_all_iff dest: in_set_takeD)

lemma list_all_drop: "list_all P s \<Longrightarrow> list_all P (drop n s)"
  by (auto simp: list_all_iff dest: in_set_dropD)

lemma mod9710_step_digits:
  assumes "s \<noteq> []" and "list_all is_digit s"
  shows "mod9710_step s = decimal_string (decimal_value (take 9 s) mod 97) @ drop 9 s"
proof -
  have "take 9 s \<noteq> []"
    using assms(1) by simp
  then have p: "parseInt (take 9 s) = Num (int (decimal_value (take 9 s)))"
    using assms(2) by (intro parseInt_digits list_all_take)
  have d: "drop (length (take 9 s)) s = drop 9 s"
    by (cases "9 \<le> length s") (simp_all add: min_def)
  show ?thesis
    unfolding mod9710_step_def Let_def p d rem_nat by simp
qed

lemma streaming_step_digits:
  "list_all is_digit s \<Longrightarrow>
     list_all is_digit (decimal_string (decimal_value (take 9 s) mod 97) @ drop 9 s)"
  by (simp add: decimal_string_digits list_all_drop)

lemma mod9710_loop_streaming:
  "list_all is_digit s \<Longrightarrow> mod9710_loop s = Some (streaming_reduce s)"
proof (induction s rule: streaming_reduce.induct)
  case (1 s)
  show ?case
  proof (cases "length s \<le> 2")
    case True
    then show ?thesis
      by (simp add: loop_done streaming_reduce.simps [of s])
  next
    case False
    then have ne: "s \<noteq> []" by auto
    have "mod9710_loop s = mod9710_loop (mod9710_step s)"
      using False by (simp add: loop_continue)
    also have "\<dots> = Some (streaming_reduce (mod9710_step s))"
      using "1.IH" [OF False] streaming_step_digits [OF "1.prems"]
      by (simp add: mod9710_step_digits [OF ne "1.prems"])
    also have "streaming_reduce (mod9710_step s) = streaming_reduce s"
      using False
      by (simp add: mod9710_step_digits [OF ne "1.prems"] streaming_reduce.simps [of s])
    finally show ?thesis .
  qed
qed

lemma streaming_reduce_digits:
  "list_all is_digit s \<Longrightarrow> list_all is_digit (streaming_reduce s)"
proof (induction s rule: streaming_reduce.induct)
  case (1 s)
  then show ?case
    using streaming_step_digits [of s]
    by (cases "length s \<le> 2") (simp_all add: streaming_reduce.simps [of s])
qed

lemma streaming_reduce_length: "length (streaming_reduce s) \<le> 2"
proof (induction s rule: streaming_reduce.induct)
  case (1 s)
  then show ?case
    by (cases "length s \<le> 2") (simp_all add: streaming_reduce.simps [of s])
qed

lemma streaming_reduce_not_Nil: "s \<noteq> [] \<Longrightarrow> streaming_reduce s \<noteq> []"
proof (induction s rule: streaming_reduce.induct)
  case (1 s)
  then show ?case
    by (cases "length s \<le> 2")
      (simp_all add: streaming_reduce.simps [of s] decimal_string_not_Nil)
qed

lemma streaming_step_value:
  "decimal_value (decimal_string (decimal_value (take 9 s) mod 97) @ drop 9 s) mod 97
     = decimal_value s mod 97"
proof -
  let ?k = "length (drop 9 s)"
  have "decimal_value s = decimal_value (take 9 s @ drop 9 s)"
    by simp
  also have "\<dots> = decimal_value (take 9 s) * 10 ^ ?k + decimal_value (drop 9 s)"
    by (rule decimal_value_append)
  finally have whole: "decimal_value s = decimal_value (take 9 s) * 10 ^ ?k + decimal_value (drop 9 s)" .
  have "decimal_value (decimal_string (decimal_value (take 9 s) mod 97) @ drop 9 s)
      = decimal_value (take 9 s) mod 97 * 10 ^ ?k + decimal_value (drop 9 s)"
    by (simp only: decimal_value_append decimal_value_decimal_string)
  then show ?thesis
    by (simp only: whole mod_add_left_eq [symmetric, of "_ * _"] mod_mult_left_eq)
qed

lemma streaming_reduce_value: "decimal_value (streaming_reduce s) mod 97 = decimal_value s mod 97"
proof (induction s rule: streaming_reduce.induct)
  case (1 s)
  show ?case
  proof (cases "length s \<le> 2")
    case True
    then show ?thesis by (simp add: streaming_reduce.simps [of s])
  next
    case False
    then show ?thesis
      using "1.IH" [OF False] by (simp add: streaming_reduce.simps [of s] streaming_step_value)
  qed
qed

lemma iso7064Mod9710_digits:
  assumes "list_all is_digit s" and "s \<noteq> []"
  shows "iso7064Mod9710 s = Returns (Num (int (decimal_value s mod 97)))"
proof -
  have "parseInt (streaming_reduce s) = Num (int (decimal_value (streaming_reduce s)))"
    using assms by (intro parseInt_digits streaming_reduce_not_Nil streaming_reduce_digits)
  then show ?thesis
    by (simp only: iso7064Mod9710_def mod9710_loop_streaming [OF assms(1)] option.case
        rem_nat streaming_reduce_value)
qed

section \<open>ISO 13616 preparation\<close>

lemma toUpperCase_char_alnum: "is_alnum c \<Longrightarrow> is_digit (toUpperCase_char c) \<or> is_upper (toUpperCase_char c)"
  by (auto simp: toUpperCase_char_def char_defs)

lemma toUpperCase_char_id: "\<not> is_lower c \<Longrightarrow> toUpperCase_char c = c"
  by (simp add: toUpperCase_char_def)

lemma upper_not_lower: "is_upper c \<Longrightarrow> \<not> is_lower c"
  by (auto simp: char_defs)

lemma digit_not_lower: "is_digit c \<Longrightarrow> \<not> is_lower c"
  by (auto simp: char_defs)

lemma digit_not_upper: "is_digit c \<Longrightarrow> \<not> is_upper c"
  by (auto simp: char_defs)

lemma toUpperCase_id: "list_all (\<lambda>c. is_digit c \<or> is_upper c) s \<Longrightarrow> toUpperCase s = s"
  unfolding toUpperCase_def
  by (induction s) (auto simp: toUpperCase_char_id upper_not_lower digit_not_lower)

lemma toUpperCase_idem: "toUpperCase (toUpperCase s) = toUpperCase s"
  unfolding toUpperCase_def by (induction s) (auto simp: toUpperCase_char_def char_defs)

lemma toUpperCase_append: "toUpperCase (a @ b) = toUpperCase a @ toUpperCase b"
  by (simp add: toUpperCase_def)

lemma letter_to_digits_upper:
  assumes "is_upper c"
  shows "letter_to_digits c = decimal_string (codePointAt c - codePointAt (CHR ''A'') + 10)"
proof -
  have "65 \<le> codePointAt c"
    using assms by (simp add: is_upper_def in_range_def) (simp add: codePointAt_def)
  then have "nat (int (codePointAt c) - 65 + 10) = codePointAt c - 65 + 10"
    by simp
  moreover have "codePointAt (CHR ''A'') = 65"
    by (simp add: codePointAt_def)
  ultimately show ?thesis
    using assms \<open>65 \<le> codePointAt c\<close> by (simp add: letter_to_digits_def A_CODE_POINT_AT_def)
qed

lemma letter_value_range:
  "is_upper c \<Longrightarrow> 10 \<le> codePointAt c - codePointAt (CHR ''A'') + 10
     \<and> codePointAt c - codePointAt (CHR ''A'') + 10 \<le> 35"
  unfolding is_upper_def in_range_def codePointAt_def by simp arith

lemma letter_to_digits_length: "is_upper c \<Longrightarrow> length (letter_to_digits c) = 2"
  using letter_value_range [of c]
  by (simp add: letter_to_digits_upper length_decimal_string_two)

lemma letter_to_digits_digit: "is_digit c \<Longrightarrow> letter_to_digits c = [c]"
  by (simp add: letter_to_digits_def digit_not_upper)

lemma letter_to_digits_digits:
  "is_digit c \<or> is_upper c \<Longrightarrow> list_all is_digit (letter_to_digits c)"
  by (auto simp: letter_to_digits_upper letter_to_digits_digit decimal_string_digits)

lemma replace_letters_digits:
  "list_all (\<lambda>c. is_digit c \<or> is_upper c) s \<Longrightarrow> list_all is_digit (replace_letters s)"
  unfolding replace_letters_def by (induction s) (auto simp: letter_to_digits_digits)

lemma replace_letters_length:
  "list_all (\<lambda>c. is_digit c \<or> is_upper c) s \<Longrightarrow>
     length (replace_letters s) = length s + length (filter is_upper s)"
  unfolding replace_letters_def
  by (induction s) (auto simp: letter_to_digits_length letter_to_digits_digit digit_not_upper)

lemma filter_rotate: "length (filter P (drop n s @ take n s)) = length (filter P s)"
proof -
  have "length (filter P (take n s @ drop n s)) = length (filter P s)"
    by simp
  then show ?thesis
    by (simp only: filter_append length_append add.commute)
qed

section \<open>The compiled matcher\<close>

lemma exec_groups_Some:
  "exec_groups r s = Some gs \<Longrightarrow> concat gs = s \<and> map length gs = map group_width r"
proof (induction r arbitrary: s gs)
  case Nil
  then show ?case by (simp split: if_splits)
next
  case (Cons g r)
  let ?w = "group_width g"
  from Cons.prems have w: "?w \<le> length s"
    and rest: "map_option ((#) (take ?w s)) (exec_groups r (drop ?w s)) = Some gs"
    by (simp_all split: if_splits)
  from rest obtain gs' where gs': "exec_groups r (drop ?w s) = Some gs'"
    and gs: "gs = take ?w s # gs'"
    by auto
  from Cons.IH [OF gs'] w show ?case
    by (simp add: gs)
qed

lemma RegExp_test_exec_groups: "RegExp_test r s \<longleftrightarrow> exec_groups r s \<noteq> None"
  by (simp add: RegExp_test_def RegExp_exec_def)

lemma RegExp_test_length:
  assumes "RegExp_test r s"
  shows "length s = sum_list (map group_width r)"
proof -
  from assms obtain gs where gs: "exec_groups r s = Some gs"
    by (auto simp: RegExp_test_exec_groups)
  from exec_groups_Some [OF this] have "length (concat gs) = length s"
    and "map length gs = map group_width r"
    by simp_all
  then show ?thesis
    by (simp add: length_concat)
qed

lemma class_code_cases:
  "class_code k \<longleftrightarrow> k = CHR ''A'' \<or> k = CHR ''B'' \<or> k = CHR ''C'' \<or> k = CHR ''F''
     \<or> k = CHR ''L'' \<or> k = CHR ''U'' \<or> k = CHR ''W''"
  by (simp add: class_code_def)

lemma class_code_format_alnum:
  "class_code k \<Longrightarrow> class_mem (block_format k) c \<Longrightarrow> is_alnum c"
  by (auto simp: class_code_cases block_format_def is_alnum_def is_digit_def is_upper_def
      is_lower_def)

lemma class_code_not_line_terminator: "class_code k \<Longrightarrow> \<not> is_line_terminator k"
  by (auto simp: class_code_cases is_line_terminator_def codePointAt_def)

lemma digit_not_line_terminator: "is_digit c \<Longrightarrow> \<not> is_line_terminator c"
  by (auto simp: char_defs)

lemma compile_block_digits:
  assumes "is_digit d1" and "is_digit d2"
  shows "compile_block [k, d1, d2] = [CharClass (block_format k) (decimal_value [d1, d2])]"
proof -
  have "parseInt [d1, d2] = Num (int (decimal_value [d1, d2]))"
    using assms by (intro parseInt_digits) simp_all
  then show ?thesis
    by (simp add: compile_block_def compile_group_def)
qed

lemma wellformed_blocks:
  "wellformed d \<Longrightarrow> map group_width (map compile_block (match_every_three d)) = block_lengths d"
proof (induction d rule: wellformed.induct)
  case 1
  then show ?case by simp
next
  case (2 k d1 d2 rest)
  then show ?case
    by (simp add: class_code_not_line_terminator digit_not_line_terminator compile_block_digits
        group_width_def)
qed simp_all

lemma wellformed_match_every_three_Nil: "wellformed d \<Longrightarrow> match_every_three d = [] \<longleftrightarrow> d = []"
  by (induction d rule: wellformed.induct)
    (simp_all add: class_code_not_line_terminator digit_not_line_terminator)

lemma wellformed_parseStructure:
  assumes "wellformed d" and "d \<noteq> []"
  shows "parseStructure d = Returns (map compile_block (match_every_three d))"
proof -
  from assms have "match_every_three d \<noteq> []"
    by (simp add: wellformed_match_every_three_Nil)
  then show ?thesis
    by (cases "match_every_three d") (simp_all add: parseStructure_def)
qed

lemma parseStructure_Returns:
  "parseStructure d = Returns r \<Longrightarrow> r = map compile_block (match_every_three d) \<and> d \<noteq> []"
  by (cases "match_every_three d") (auto simp: parseStructure_def)

lemma wellformed_exec_alnum:
  "wellformed d \<Longrightarrow> exec_groups (map compile_block (match_every_three d)) s = Some gs \<Longrightarrow>
     list_all is_alnum s"
proof (induction d arbitrary: s gs rule: wellformed.induct)
  case 1
  then show ?case by (simp split: if_splits)
next
  case (2 k d1 d2 rest)
  let ?n = "decimal_value [d1, d2]"
  from "2.prems"(1) have k: "class_code k" and d: "is_digit d1" "is_digit d2"
    and rest: "wellformed rest"
    by simp_all
  have blocks: "match_every_three (k # d1 # d2 # rest) = [k, d1, d2] # match_every_three rest"
    using k d by (simp add: class_code_not_line_terminator digit_not_line_terminator)
  from "2.prems"(2)
  have "exec_groups ([CharClass (block_format k) ?n] # map compile_block (match_every_three rest)) s
      = Some gs"
    by (simp only: blocks list.map compile_block_digits [OF d])
  then have n: "?n \<le> length s"
    and head: "list_all (class_mem (block_format k)) (take ?n s)"
    and tail: "exec_groups (map compile_block (match_every_three rest)) (drop ?n s) \<noteq> None"
    by (auto simp: group_width_def split: if_splits)
  from head k have "list_all is_alnum (take ?n s)"
    by (auto simp: list_all_iff intro: class_code_format_alnum)
  moreover from tail "2.IH" [OF rest] have "list_all is_alnum (drop ?n s)"
    by auto
  ultimately have "list_all is_alnum (take ?n s @ drop ?n s)"
    by (simp only: list_all_append)
  then show ?case
    by simp
qed simp_all

lemma match_every_three_short: "length d < 3 \<Longrightarrow> match_every_three d = []"
  by (cases d rule: match_every_three.cases) simp_all

lemma match_every_three_length:
  "list_all (\<lambda>c. \<not> is_line_terminator c) d \<Longrightarrow> length (match_every_three d) = length d div 3"
  by (induction d rule: match_every_three.induct) simp_all

section \<open>Formatting\<close>

lemma NON_ALPHANUM_alnum: "\<not> NON_ALPHANUM c \<longleftrightarrow> is_alnum c"
  by (auto simp: NON_ALPHANUM_def is_alnum_def)

lemma electronicFormat_alnum: "electronicFormat x = map toUpperCase_char (filter is_alnum x)"
  by (simp add: electronicFormat_def toUpperCase_def NON_ALPHANUM_alnum)

lemma electronicFormat_normalized: "list_all (\<lambda>c. is_digit c \<or> is_upper c) (electronicFormat x)"
  by (induction x) (auto simp: electronicFormat_alnum toUpperCase_char_alnum)

lemma normalized_electronicFormat:
  "list_all (\<lambda>c. is_digit c \<or> is_upper c) s \<Longrightarrow> electronicFormat s = s"
  by (induction s)
    (auto simp: electronicFormat_alnum is_alnum_def toUpperCase_char_id upper_not_lower
      digit_not_lower)

lemma normalized_iff: "electronicFormat s = s \<longleftrightarrow> list_all (\<lambda>c. is_digit c \<or> is_upper c) s"
  using electronicFormat_normalized [of s] normalized_electronicFormat [of s] by auto

lemma electronicFormat_idem: "electronicFormat (electronicFormat x) = electronicFormat x"
  by (rule normalized_electronicFormat [OF electronicFormat_normalized])

lemma electronicFormat_append:
  "electronicFormat (a @ b) = electronicFormat a @ electronicFormat b"
  by (simp add: electronicFormat_alnum)

lemma electronicFormat_space: "electronicFormat (CHR '' '' # s) = electronicFormat s"
  by (simp add: electronicFormat_alnum char_defs)

lemma electronicFormat_join_space:
  "electronicFormat (join '' '' gs) = electronicFormat (concat gs)"
proof (induction gs rule: induct_list012)
  case (3 x y zs)
  then show ?case
    by (simp add: electronicFormat_append electronicFormat_space)
qed simp_all

lemma concat_group_four: "concat (group_four s) = s"
  by (induction s rule: group_four.induct) simp_all

lemma normalized_no_line_terminator:
  "list_all (\<lambda>c. is_digit c \<or> is_upper c) s \<Longrightarrow> list_all (\<lambda>c. \<not> is_line_terminator c) s"
  by (auto simp: list_all_iff char_defs)

lemma GetSubstitution_plain:
  "CHR ''$'' \<notin> set t \<Longrightarrow> GetSubstitution matched preceding following captures t = t"
  by (induction matched preceding following captures t rule: GetSubstitution.induct) auto

lemma GetSubstitution_first_capture:
  assumes "CHR ''$'' \<notin> set separator"
  shows "GetSubstitution matched preceding following [matched] (''$1'' @ separator)
           = matched @ separator"
proof (cases separator)
  case Nil
  then show ?thesis
    by (simp add: capture_ref_def char_defs digit_value_def)
next
  case (Cons e rest)
  with assms have "GetSubstitution matched preceding following [matched] (e # rest) = e # rest"
    by (intro GetSubstitution_plain) simp
  then show ?thesis
    by (simp add: Cons capture_ref_def char_defs digit_value_def)
qed

lemma replace_every_four_groups:
  assumes "CHR ''$'' \<notin> set separator"
  shows "list_all (\<lambda>c. \<not> is_line_terminator c) s \<Longrightarrow>
     replace_every_four (''$1'' @ separator) preceding s = join separator (group_four s)"
proof (induction s arbitrary: preceding rule: group_four.induct)
  case (1 a b c d e rest)
  then have "replace_every_four (''$1'' @ separator) (preceding @ [a, b, c, d]) (e # rest)
      = join separator (group_four (e # rest))"
    by simp
  moreover have "group_four (e # rest) \<noteq> []"
    by (cases "e # rest" rule: group_four.cases) simp_all
  then obtain g gs where "group_four (e # rest) = g # gs"
    by (cases "group_four (e # rest)") auto
  ultimately show ?case
    using "1.prems" GetSubstitution_first_capture [OF assms, of "[a, b, c, d]"]
    by (simp del: GetSubstitution.simps)
qed (simp_all del: GetSubstitution.simps)

lemma printFormat_groups:
  assumes "CHR ''$'' \<notin> set separator"
  shows "printFormat x (Some separator) = join separator (group_four (electronicFormat x))"
  unfolding printFormat_def default_separator_def option.case
  by (rule replace_every_four_groups
      [OF assms normalized_no_line_terminator [OF electronicFormat_normalized]])

section \<open>Validation returns\<close>

lemma iso13616Prepare_normalized:
  assumes "list_all (\<lambda>c. is_digit c \<or> is_upper c) iban"
  shows "list_all is_digit (iso13616Prepare iban)"
proof -
  have "list_all (\<lambda>c. is_digit c \<or> is_upper c) (drop 4 iban @ take 4 iban)"
    using assms by (simp add: list_all_take list_all_drop)
  then show ?thesis
    by (simp add: iso13616Prepare_def toUpperCase_id [OF assms] replace_letters_digits)
qed

lemma iso7064Mod9710_returns:
  "list_all is_digit s \<Longrightarrow> \<exists>m. iso7064Mod9710 s = Returns m"
  using iso7064Mod9710_digits [of s]
  by (cases "s = []") (simp_all add: iso7064Mod9710_def loop_done)

lemma parseStructure_not_Diverges: "parseStructure d \<noteq> Diverges"
  by (cases "match_every_three d") (simp_all add: parseStructure_def)

lemma Specification_isValid_returns:
  assumes "electronicFormat iban = iban"
  shows "Specification_isValid spec iban \<noteq> Diverges"
proof -
  from assms have "list_all is_digit (iso13616Prepare iban)"
    by (simp add: normalized_iff iso13616Prepare_normalized)
  from iso7064Mod9710_returns [OF this]
  obtain m where "iso7064Mod9710 (iso13616Prepare iban) = Returns m" ..
  then show ?thesis
    using parseStructure_not_Diverges [of "structure spec"]
    by (cases "regex spec") (simp_all add: Specification_isValid_def regex_def)
qed

lemma catch_false_returns: "r \<noteq> Diverges \<Longrightarrow> \<exists>b. catch_false r = Returns b"
  by (cases r) auto

lemma getCountry_not_Diverges: "getCountry c \<noteq> Diverges"
  by (simp add: getCountry_def split: option.splits)

lemma isValid_returns: "\<exists>b. isValid iban = Returns b"
proof (cases "isString iban")
  case False
  then have "isValid iban = Returns False"
    by (simp add: isValid_def)
  then show ?thesis ..
next
  case True
  let ?f = "electronicFormat (string_of iban)"
  have "bind (getCountry (take 2 ?f))
          (\<lambda>countryStructure.
             call_method countryStructure (\<lambda>spec. Specification_isValid spec ?f)) \<noteq> Diverges"
  proof (cases "getCountry (take 2 ?f)")
    case (Returns p)
    then show ?thesis
      using Specification_isValid_returns [OF electronicFormat_idem]
      by (cases p) simp_all
  qed (simp_all add: getCountry_not_Diverges)
  from catch_false_returns [OF this] True show ?thesis
    by (simp add: isValid_def Let_def)
qed

section \<open>Check digits\<close>

lemma replace_letters_append: "replace_letters (a @ b) = replace_letters a @ replace_letters b"
  by (simp add: replace_letters_def)

lemma replace_letters_digit_string: "list_all is_digit s \<Longrightarrow> replace_letters s = s"
  unfolding replace_letters_def by (induction s) (simp_all add: letter_to_digits_digit)

lemma toUpperCase_digit_string: "list_all is_digit s \<Longrightarrow> toUpperCase s = s"
  by (rule toUpperCase_id) (simp add: list_all_iff)

lemma toUpperCase_upper_string: "list_all is_upper s \<Longrightarrow> toUpperCase s = s"
  by (rule toUpperCase_id) (simp add: list_all_iff)

lemma toUpperCase_alnum:
  "list_all is_alnum s \<Longrightarrow> list_all (\<lambda>c. is_digit c \<or> is_upper c) (toUpperCase s)"
  unfolding toUpperCase_def by (induction s) (simp_all add: toUpperCase_char_alnum)

lemma iso13616Prepare_append4:
  assumes "length a = 4"
  shows "iso13616Prepare (a @ b) = replace_letters (toUpperCase b) @ replace_letters (toUpperCase a)"
  using assms by (simp add: iso13616Prepare_def toUpperCase_def replace_letters_append)

lemma zero_pad2_length: "n < 100 \<Longrightarrow> length (zero_pad2 n) = 2"
  by (simp add: zero_pad2_def length_decimal_string_small length_decimal_string_two)

lemma zero_pad2_digits: "list_all is_digit (zero_pad2 n)"
  by (simp add: zero_pad2_def decimal_string_digits char_defs)

lemma decimal_value_Cons_zero: "decimal_value (CHR ''0'' # s) = decimal_value s"
  using decimal_value_append [of "''0''" s]
  by (simp add: decimal_value_single digit_value_def codePointAt_def)

lemma zero_pad2_value: "decimal_value (zero_pad2 n) = n"
  by (simp add: zero_pad2_def decimal_value_Cons_zero decimal_value_decimal_string)

lemma slice_last2_zero_pad2:
  assumes "n < 100"
  shows "slice_last2 (''0'' @ decimal_string n) = zero_pad2 n"
proof (cases "n < 10")
  case True
  then show ?thesis
    by (simp add: slice_last2_def zero_pad2_def length_decimal_string_small)
next
  case False
  with assms have "length (decimal_string n) = 2"
    by (simp add: length_decimal_string_two)
  with False show ?thesis
    by (simp add: slice_last2_def zero_pad2_def)
qed

lemma digit_char_digit_value: "is_digit c \<Longrightarrow> digit_char (digit_value c) = c"
  by (simp add: digit_value_def char_defs)

lemma digit_value_less_10: "is_digit c \<Longrightarrow> digit_value c < 10"
  by (auto simp: digit_value_def char_defs)

lemma digit_value_zero:
  assumes "is_digit c" and "digit_value c = 0"
  shows "c = CHR ''0''"
proof -
  from assms have "of_char c = (48 :: nat)"
    by (auto simp: digit_value_def char_defs)
  then have "of_char c = (of_char (CHR ''0'') :: nat)"
    by simp
  then show ?thesis
    by (simp only: of_char_eq_iff)
qed

lemma two_digit_string:
  assumes "length s = 2" and "list_all is_digit s"
  shows "zero_pad2 (decimal_value s) = s"
proof -
  from assms(1) obtain a b where s: "s = [a, b]"
    by (cases s; cases "tl s") auto
  with assms(2) have a: "is_digit a" and b: "is_digit b"
    by simp_all
  define n where "n = decimal_value s"
  have v: "n = 10 * digit_value a + digit_value b"
    by (simp add: n_def s decimal_value_def)
  note la = digit_value_less_10 [OF a] and lb = digit_value_less_10 [OF b]
  have "zero_pad2 n = [a, b]"
  proof (cases "n < 10")
    case True
    with v have z: "digit_value a = 0" and nb: "n = digit_value b"
      by simp_all
    from True have "decimal_string n = [digit_char n]"
      by (subst decimal_string.simps) simp
    with True show ?thesis
      using digit_value_zero [OF a z] digit_char_digit_value [OF b]
      by (simp add: zero_pad2_def nb)
  next
    case False
    with v la lb have d: "n div 10 = digit_value a" and m: "n mod 10 = digit_value b"
      by simp_all
    from la have "decimal_string (digit_value a) = [digit_char (digit_value a)]"
      by (subst decimal_string.simps) simp
    with False have "decimal_string n = [digit_char (digit_value a), digit_char (digit_value b)]"
      by (subst decimal_string.simps) (simp add: d m)
    with False show ?thesis
      by (simp add: zero_pad2_def digit_char_digit_value [OF a] digit_char_digit_value [OF b]
          del: digit_char.simps)
  qed
  then show ?thesis
    by (simp add: n_def s)
qed

lemma check_remainder_one:
  fixes x :: nat
  shows "(x + (98 - x mod 97)) mod 97 = 1"
proof -
  have "x mod 97 < 97"
    by simp
  then have "x + (98 - x mod 97) = 97 * (x div 97) + 98"
    using div_mult_mod_eq [of x 97] by linarith
  then show ?thesis
    by (simp add: mod_simps)
qed

lemma check_digits_unique:
  fixes x c :: nat
  assumes "(x + c) mod 97 = 1" and "2 \<le> c" and "c \<le> 98"
  shows "98 - x mod 97 = c"
proof -
  define r where "r = x mod 97"
  define k where "k = (r + c) div 97"
  have r: "r < 97"
    by (simp add: r_def)
  have "(r + c) mod 97 = 1"
    using assms(1) by (simp add: r_def mod_simps)
  moreover have "r + c = 97 * k + (r + c) mod 97"
    by (simp add: k_def)
  ultimately have eq: "r + c = 97 * k + 1"
    by simp
  from eq r assms(2,3) have "k = 1"
    by linarith
  with eq have "98 - r = c"
    by simp
  then show ?thesis
    by (simp add: r_def)
qed

lemma replace_letters_upper_not_Nil:
  "s \<noteq> [] \<Longrightarrow> list_all is_upper s \<Longrightarrow> replace_letters s \<noteq> []"
  by (cases s) (simp_all add: replace_letters_def letter_to_digits_upper decimal_string_not_Nil)

lemma prepared_reduction:
  assumes cc: "length cc = 2" "list_all is_upper cc"
    and bban: "list_all is_alnum bban"
    and chk: "length chk = 2" "list_all is_digit chk"
  shows "iso13616Prepare (cc @ chk @ bban)
           = replace_letters (toUpperCase bban) @ replace_letters cc @ chk"
    and "iso7064Mod9710 (iso13616Prepare (cc @ chk @ bban)) =
           Returns (Num (int ((decimal_value (replace_letters (toUpperCase bban) @ replace_letters cc)
                                * 100 + decimal_value chk) mod 97)))"
proof -
  let ?X = "replace_letters (toUpperCase bban) @ replace_letters cc"
  have "iso13616Prepare ((cc @ chk) @ bban)
      = replace_letters (toUpperCase bban) @ replace_letters (toUpperCase (cc @ chk))"
    by (rule iso13616Prepare_append4) (simp add: cc chk)
  then show prep: "iso13616Prepare (cc @ chk @ bban) = replace_letters (toUpperCase bban) @ replace_letters cc @ chk"
    by (simp add: toUpperCase_append toUpperCase_upper_string [OF cc(2)]
        toUpperCase_digit_string [OF chk(2)] replace_letters_append
        replace_letters_digit_string [OF chk(2)])
  have "list_all (\<lambda>c. is_digit c \<or> is_upper c) cc"
    using cc(2) by (simp add: list_all_iff)
  then have digits: "list_all is_digit (?X @ chk)"
    using chk(2) by (simp add: replace_letters_digits toUpperCase_alnum [OF bban])
  have "cc \<noteq> []"
    using cc(1) by auto
  then have ne: "?X @ chk \<noteq> []"
    by (simp add: replace_letters_upper_not_Nil cc(2))
  have "decimal_value (?X @ chk) = decimal_value ?X * 100 + decimal_value chk"
    using decimal_value_append [of ?X chk] by (simp add: chk(1))
  with iso7064Mod9710_digits [OF digits ne]
  show "iso7064Mod9710 (iso13616Prepare (cc @ chk @ bban)) =
           Returns (Num (int ((decimal_value ?X * 100 + decimal_value chk) mod 97)))"
    by (simp add: prep)
qed

lemma Specification_isValidBBAN_True:
  assumes "wellformed (structure spec)"
    and "Specification_isValidBBAN spec bban = Returns True"
  shows "length_iban spec - 4 = int (length bban)"
    and "list_all is_alnum bban"
    and "\<exists>r. regex spec = Returns r \<and> RegExp_test r bban"
proof -
  from assms(2) show len: "length_iban spec - 4 = int (length bban)"
    by (simp add: Specification_isValidBBAN_def split: if_splits)
  with assms(2) obtain r where r: "regex spec = Returns r" and t: "RegExp_test r bban"
    by (cases "regex spec") (simp_all add: Specification_isValidBBAN_def)
  then show "\<exists>r. regex spec = Returns r \<and> RegExp_test r bban"
    by blast
  from r have "r = map compile_block (match_every_three (structure spec))"
    using parseStructure_Returns by (simp add: regex_def)
  with t obtain gs where
    "exec_groups (map compile_block (match_every_three (structure spec))) bban = Some gs"
    by (auto simp: RegExp_test_exec_groups)
  from wellformed_exec_alnum [OF assms(1) this] show "list_all is_alnum bban" .
qed

lemma Specification_isValid_True:
  assumes "Specification_isValid spec iban = Returns True"
  shows "int (length iban) = length_iban spec"
    and "take 2 iban = countryCode spec"
    and "\<exists>r. regex spec = Returns r \<and> RegExp_test r (drop 4 iban)"
    and "iso7064Mod9710 (iso13616Prepare iban) = Returns (Num 1)"
proof -
  from assms show len: "int (length iban) = length_iban spec"
    by (simp add: Specification_isValid_def split: if_splits)
  from assms show cc: "take 2 iban = countryCode spec"
    by (simp add: Specification_isValid_def split: if_splits)
  from assms len cc obtain r where r: "regex spec = Returns r"
    by (cases "regex spec") (simp_all add: Specification_isValid_def)
  with assms len cc have t: "RegExp_test r (drop 4 iban)"
    by (simp add: Specification_isValid_def split: if_splits)
  with r show "\<exists>r. regex spec = Returns r \<and> RegExp_test r (drop 4 iban)"
    by blast
  from assms len cc r t show "iso7064Mod9710 (iso13616Prepare iban) = Returns (Num 1)"
    by (cases "iso7064Mod9710 (iso13616Prepare iban)") (simp_all add: Specification_isValid_def)
qed

lemma Specification_fromBBAN_result:
  assumes spec: "country_specification spec"
    and valid: "Specification_isValidBBAN spec bban = Returns True"
  defines "remainder \<equiv>
    (decimal_value (replace_letters (toUpperCase bban) @ replace_letters (countryCode spec)) * 100)
      mod 97"
  shows "iso7064Mod9710 (iso13616Prepare (countryCode spec @ ''00'' @ bban))
           = Returns (Num (int remainder))"
    and "Specification_fromBBAN spec bban
           = Returns (countryCode spec @ zero_pad2 (98 - remainder) @ bban)"
    and "iso7064Mod9710 (iso13616Prepare (countryCode spec @ zero_pad2 (98 - remainder) @ bban))
           = Returns (Num 1)"
proof -
  let ?cc = "countryCode spec"
  from spec have cc: "length ?cc = 2" "list_all is_upper ?cc"
    and wf: "wellformed (structure spec)"
    by (simp_all add: country_specification_def)
  note bban = Specification_isValidBBAN_True(2) [OF wf valid]
  have zero: "length ''00'' = 2" "list_all is_digit ''00''"
    by (simp_all add: char_defs)
  have "decimal_value ''00'' = 0"
    by (simp add: decimal_value_def digit_value_def codePointAt_def)
  with prepared_reduction(2) [OF cc bban zero]
  show r: "iso7064Mod9710 (iso13616Prepare (?cc @ ''00'' @ bban)) = Returns (Num (int remainder))"
    by (simp add: remainder_def)
  have less: "remainder < 97"
    by (simp add: remainder_def)
  then have pos: "nat (98 - int remainder) = 98 - remainder" and nonneg: "\<not> 98 - int remainder < 0"
    by simp_all
  have "toString (minus_number 98 (Num (int remainder))) = decimal_string (98 - remainder)"
    using less by (simp add: pos)
  moreover have "slice_last2 (''0'' @ decimal_string (98 - remainder)) = zero_pad2 (98 - remainder)"
    by (rule slice_last2_zero_pad2) simp
  ultimately have digit: "slice_last2 (''0'' @ toString (minus_number 98 (Num (int remainder))))
      = zero_pad2 (98 - remainder)"
    by (simp only:)
  show "Specification_fromBBAN spec bban = Returns (?cc @ zero_pad2 (98 - remainder) @ bban)"
    unfolding Specification_fromBBAN_def
    by (simp only: valid r bind.simps Let_def digit not_True_eq_False if_False)
  have chk: "length (zero_pad2 (98 - remainder)) = 2" "list_all is_digit (zero_pad2 (98 - remainder))"
    by (simp_all add: zero_pad2_length zero_pad2_digits)
  from prepared_reduction(2) [OF cc bban chk]
  show "iso7064Mod9710 (iso13616Prepare (?cc @ zero_pad2 (98 - remainder) @ bban)) = Returns (Num 1)"
    by (simp only: zero_pad2_value remainder_def check_remainder_one) simp
qed

section \<open>Evaluation on concrete inputs\<close>

lemmas eval_defs = char_defs char_of_eq_iff decimal_string.simps digit_value_def
  decimal_value_def parseInt_def mod9710_step_def iso7064Mod9710_def loop_continue loop_done

lemmas regex_eval = regex_def parseStructure_def compile_block_def compile_group_def
  block_format_def group_width_def RegExp_test_def RegExp_exec_def new_Specification_def

lemma COUNTRIES_BE:
  "map_of COUNTRIES ''BE'' = Some (new_Specification ''BE'' 16 ''F03F07F02'' ''BE68539007547034'')"
  by (simp add: COUNTRIES_def)

lemma getCountry_BE:
  "getCountry ''BE'' = Returns (Spec (new_Specification ''BE'' 16 ''F03F07F02'' ''BE68539007547034''))"
  by (simp add: getCountry_def COUNTRIES_get_def COUNTRIES_BE)

lemma regex_BE:
  "regex (new_Specification ''BE'' 16 ''F03F07F02'' ''BE68539007547034'')
     = Returns [[CharClass ''0-9'' 3], [CharClass ''0-9'' 7], [CharClass ''0-9'' 2]]"
  by (simp add: regex_eval eval_defs)

lemma COUNTRIES_invariants:
  "list_all (\<lambda>(k, spec). k = countryCode spec \<and> length k = 2 \<and> list_all is_upper k
      \<and> wellformed (structure spec) \<and> structure spec \<noteq> []
      \<and> length_iban spec - 4 = int (sum_list (block_lengths (structure spec)))) COUNTRIES"
  by (simp add: COUNTRIES_def new_Specification_def class_code_def char_defs digit_value_def decimal_value_def)

lemmas spec_eval = Specification_isValid_def Specification_toBBAN_def
  Specification_isValidBBAN_def Specification_fromBBAN_def slice_last2_def
  iso13616Prepare_def replace_letters_def toUpperCase_def toUpperCase_char_def letter_to_digits_def
  A_CODE_POINT_AT_def

lemmas public_eval = isValid_def toBBAN_def fromBBAN_def isValidBBAN_def printFormat_def
  electronicFormat_def NON_ALPHANUM_def default_separator_def

lemma COUNTRIES_ZZ: "map_of COUNTRIES ''ZZ'' = None"
  by (simp add: COUNTRIES_def)

section \<open>Agreement with the test suite\<close>

text \<open>The cases of the repository's tests that name concrete inputs, evaluated on the model.\<close>

lemma COUNTRIES_NL:
  "map_of COUNTRIES ''NL'' = Some (new_Specification ''NL'' 18 ''U04F10'' ''NL91ABNA0417164300'')"
  by (simp add: COUNTRIES_def)

lemma getCountry_NL:
  "getCountry ''NL'' = Returns (Spec (new_Specification ''NL'' 18 ''U04F10'' ''NL91ABNA0417164300''))"
  by (simp add: getCountry_def COUNTRIES_get_def COUNTRIES_NL)

lemmas run = public_eval spec_eval regex_eval eval_defs getCountry_BE getCountry_NL

lemma test_isValid_not_a_string: "isValid JOther = Returns False"
  by (simp add: isValid_def)

lemma test_isValid_belgian: "isValid (JString ''BE68539007547034'') = Returns True"
  by (simp add: run)

lemma test_isValid_dutch: "isValid (JString ''NL86INGB0002445588'') = Returns True"
  by (simp add: run)

lemma test_isValid_incorrect_check_digit: "isValid (JString ''BE68539007547035'') = Returns False"
  by (simp add: run)

lemma test_electronicFormat: "electronicFormat ''BE68 5390 0754 7034'' = ''BE68539007547034''"
  by (simp add: run)

lemma test_printFormat: "printFormat ''BE68 5390 0754 7034'' None = ''BE68 5390 0754 7034''"
  by (simp add: run capture_ref_def)

lemma test_toBBAN_default_separator: "toBBAN ''BE68 5390 0754 7034'' None = Returns ''539 0075470 34''"
  by (simp add: run)

lemma test_fromBBAN: "fromBBAN ''BE'' ''539007547034'' = Returns ''BE68539007547034''"
  by (simp add: run)

lemma test_fromBBAN_ignoring_format: "fromBBAN ''BE'' ''539-0075470-34'' = Returns ''BE68539007547034''"
  by (simp add: run)

lemma test_fromBBAN_invalid: "fromBBAN ''BE'' ''1539-0075470-34'' = Throws InvalidBBAN"
  by (simp add: run)

lemma test_isValidBBAN_not_a_string: "isValidBBAN ''BE'' JOther = Returns False"
  by (simp add: isValidBBAN_def)

lemma test_isValidBBAN_belgian: "isValidBBAN ''BE'' (JString ''539007547034'') = Returns True"
  by (simp add: run)

lemma test_isValidBBAN_dutch: "isValidBBAN ''NL'' (JString ''INGB0002445588'') = Returns True"
  by (simp add: run)

lemma test_isValidBBAN_ignoring_format: "isValidBBAN ''BE'' (JString ''539-0075470-34'') = Returns True"
  by (simp add: run)

lemma test_isValidBBAN_length: "isValidBBAN ''BE'' (JString ''1539-0075470-34'') = Returns False"
  by (simp add: run)

lemma test_isValidBBAN_format: "isValidBBAN ''BE'' (JString ''ABC-0075470-34'') = Returns False"
  by (simp add: run)

section \<open>The claims\<close>

text \<open>
  C1. For a specification whose structure compiles to the matcher \<open>r\<close> and a normalized
  string (one that \<open>electronicFormat\<close> leaves as it is), \<open>Specification.isValid\<close>
  returns, and the value is true exactly when the length is the declared length, the
  first two characters are the country code, the text from offset 4 matches \<open>r\<close>, and the
  reduction of the prepared string is 1.
\<close>

theorem Specification_isValid_iff:
  assumes "regex spec = Returns r" and "electronicFormat iban = iban"
  shows "Specification_isValid spec iban =
    Returns (int (length iban) = length_iban spec
             \<and> take 2 iban = countryCode spec
             \<and> RegExp_test r (drop 4 iban)
             \<and> iso7064Mod9710 (iso13616Prepare iban) = Returns (Num 1))"
proof -
  from assms(2) have "list_all is_digit (iso13616Prepare iban)"
    by (simp add: normalized_iff iso13616Prepare_normalized)
  from iso7064Mod9710_returns [OF this]
  obtain m where "iso7064Mod9710 (iso13616Prepare iban) = Returns m" ..
  then show ?thesis
    by (auto simp: Specification_isValid_def assms(1))
qed

theorem Specification_isValid_iff_witness:
  "Specification_isValid (new_Specification ''BE'' 16 ''F03F07F02'' ''BE68539007547034'')
     ''BE68539007547034'' = Returns True
   \<and> Specification_isValid (new_Specification ''BE'' 16 ''F03F07F02'' ''BE68539007547034'')
     ''BE68539007547035'' = Returns False"
proof -
  let ?BE = "new_Specification ''BE'' 16 ''F03F07F02'' ''BE68539007547034''"
  let ?r = "[[CharClass ''0-9'' 3], [CharClass ''0-9'' 7], [CharClass ''0-9'' 2]]"
  have n1: "electronicFormat ''BE68539007547034'' = ''BE68539007547034''"
    by (rule normalized_electronicFormat) (simp add: char_defs)
  have n2: "electronicFormat ''BE68539007547035'' = ''BE68539007547035''"
    by (rule normalized_electronicFormat) (simp add: char_defs)
  have m1: "iso7064Mod9710 (iso13616Prepare ''BE68539007547034'') = Returns (Num 1)"
    by (simp add: spec_eval eval_defs)
  have m2: "iso7064Mod9710 (iso13616Prepare ''BE68539007547035'') = Returns (Num 28)"
    by (simp add: spec_eval eval_defs)
  have t: "RegExp_test ?r (drop 4 ''BE68539007547034'')"
    by (simp add: regex_eval eval_defs)
  have "Specification_isValid ?BE ''BE68539007547034'' = Returns True"
    using Specification_isValid_iff [OF regex_BE n1] m1 t by (simp add: new_Specification_def)
  moreover have "Specification_isValid ?BE ''BE68539007547035'' = Returns False"
    using Specification_isValid_iff [OF regex_BE n2] m2 by (simp add: new_Specification_def)
  ultimately show ?thesis
    by (rule conjI)
qed

text \<open>
  C2, as amended. For every all-digit string, \<open>iso7064Mod9710\<close> returns (its loop ends),
  and what it returns is the result of the streaming reduction of the specification:
  the prefix of up to 9 digits is replaced by the numeral of its value modulo 97 until
  at most two characters remain, and the value of what remains is taken modulo 97 once
  more. For the empty string, which has no integer value, the result is \<open>NaN\<close>. The
  reduction keeps the value of the string modulo 97.
\<close>

theorem iso7064Mod9710_streaming:
  assumes "list_all is_digit s"
  shows "iso7064Mod9710 s =
      Returns (if s = [] then NaN else Num (int (decimal_value (streaming_reduce s) mod 97)))
    \<and> length (streaming_reduce s) \<le> 2
    \<and> decimal_value (streaming_reduce s) mod 97 = decimal_value s mod 97"
proof (cases "s = []")
  case True
  then show ?thesis
    by (simp add: iso7064Mod9710_def loop_done parseInt_Nil streaming_reduce.simps [of "[]"])
next
  case False
  then show ?thesis
    using iso7064Mod9710_digits [OF assms False]
    by (simp add: streaming_reduce_value streaming_reduce_length)
qed

theorem iso7064Mod9710_streaming_witness:
  "list_all is_digit ''539007547034111468''
   \<and> streaming_reduce ''539007547034111468'' = ''1''
   \<and> iso7064Mod9710 ''539007547034111468'' = Returns (Num 1)"
proof -
  have d: "list_all is_digit ''539007547034111468''"
    by (simp add: char_defs)
  have r: "streaming_reduce ''539007547034111468'' = ''1''"
    by (simp add: streaming_reduce.simps eval_defs)
  show ?thesis
    using iso7064Mod9710_streaming [OF d] d r by (simp add: eval_defs)
qed

text \<open>
  C2 as stated fails: on \<open>98\<close> the loop body never runs, what remains is \<open>98\<close>, whose
  integer value is 98, and the function returns \<open>98 % 97 = 1\<close>.
\<close>

theorem iso7064Mod9710_98_counterexample:
  "list_all is_digit ''98'' \<and> streaming_reduce ''98'' = ''98''
   \<and> iso7064Mod9710 ''98'' = Returns (Num 1)
   \<and> iso7064Mod9710 ''98'' \<noteq> Returns (Num (int (decimal_value (streaming_reduce ''98''))))"
  by (simp add: streaming_reduce.simps eval_defs)

text \<open>
  C3, as amended. For a country specification and a BBAN that \<open>isValidBBAN\<close> accepts,
  \<open>fromBBAN\<close> returns the country code, the check digits and the BBAN, where the check
  digits are 98 minus the reduction of the prepared \<open>countryCode + "00" + bban\<close>, as
  two digits; the reduction of the prepared result is 1, and the result is valid. For a
  valid IBAN whose check digits are two decimal digits from 02 to 98, \<open>fromBBAN\<close> of its
  BBAN part gives the IBAN back.
\<close>

theorem fromBBAN_check_digits:
  assumes "country_specification spec"
  shows "(Specification_isValidBBAN spec bban = Returns True \<longrightarrow>
           (\<exists>remainder<97.
              iso7064Mod9710 (iso13616Prepare (countryCode spec @ ''00'' @ bban))
                = Returns (Num (int remainder))
              \<and> Specification_fromBBAN spec bban
                  = Returns (countryCode spec @ zero_pad2 (98 - remainder) @ bban)
              \<and> iso7064Mod9710
                    (iso13616Prepare (countryCode spec @ zero_pad2 (98 - remainder) @ bban))
                  = Returns (Num 1)
              \<and> Specification_isValid spec (countryCode spec @ zero_pad2 (98 - remainder) @ bban)
                  = Returns True))
    \<and> (Specification_isValid spec iban = Returns True
         \<and> list_all is_digit (check_digits iban)
         \<and> 2 \<le> decimal_value (check_digits iban) \<and> decimal_value (check_digits iban) \<le> 98 \<longrightarrow>
           Specification_fromBBAN spec (drop 4 iban) = Returns iban)"
proof (intro conjI impI)
  let ?cc = "countryCode spec"
  from assms have cc: "length ?cc = 2" "list_all is_upper ?cc"
    and wf: "wellformed (structure spec)"
    by (simp_all add: country_specification_def)
  {
    assume valid: "Specification_isValidBBAN spec bban = Returns True"
    define remainder where "remainder =
      (decimal_value (replace_letters (toUpperCase bban) @ replace_letters ?cc) * 100) mod 97"
    let ?iban = "?cc @ zero_pad2 (98 - remainder) @ bban"
    note result = Specification_fromBBAN_result [OF assms valid, folded remainder_def]
    have less: "remainder < 97"
      by (simp add: remainder_def)
    from Specification_isValidBBAN_True(3) [OF wf valid]
    obtain r where r: "regex spec = Returns r" and t: "RegExp_test r bban"
      by blast
    have "int (length ?iban) = length_iban spec"
      using Specification_isValidBBAN_True(1) [OF wf valid] less
      by (simp add: cc(1) zero_pad2_length)
    moreover have "take 2 ?iban = ?cc" and "drop 4 ?iban = bban"
      using less by (simp_all add: cc(1) zero_pad2_length)
    ultimately have "Specification_isValid spec ?iban = Returns True"
      using r t result(3) by (simp add: Specification_isValid_def)
    with result less
    show "\<exists>remainder<97.
              iso7064Mod9710 (iso13616Prepare (?cc @ ''00'' @ bban)) = Returns (Num (int remainder))
              \<and> Specification_fromBBAN spec bban = Returns (?cc @ zero_pad2 (98 - remainder) @ bban)
              \<and> iso7064Mod9710 (iso13616Prepare (?cc @ zero_pad2 (98 - remainder) @ bban))
                  = Returns (Num 1)
              \<and> Specification_isValid spec (?cc @ zero_pad2 (98 - remainder) @ bban) = Returns True"
      by blast
  }
  {
    assume hyp: "Specification_isValid spec iban = Returns True
         \<and> list_all is_digit (check_digits iban)
         \<and> 2 \<le> decimal_value (check_digits iban) \<and> decimal_value (check_digits iban) \<le> 98"
    let ?chk = "check_digits iban"
    let ?bban = "drop 4 iban"
    let ?X = "replace_letters (toUpperCase ?bban) @ replace_letters ?cc"
    from hyp have valid: "Specification_isValid spec iban = Returns True"
      and digits: "list_all is_digit ?chk"
      and range: "2 \<le> decimal_value ?chk" "decimal_value ?chk \<le> 98"
      by simp_all
    note v = Specification_isValid_True [OF valid]
    from v(3) obtain r where r: "regex spec = Returns r" and t: "RegExp_test r ?bban"
      by blast
    from assms v(1) have long: "4 \<le> length iban"
      by (simp add: country_specification_def)
    then have chk: "length ?chk = 2"
      by (simp add: check_digits_def)
    have parts: "iban = ?cc @ ?chk @ ?bban"
    proof -
      have "take 2 iban @ take 2 (drop 2 iban) @ drop 2 (drop 2 iban) = iban"
        by (simp only: append_take_drop_id)
      then show ?thesis
        by (simp add: v(2) check_digits_def)
    qed
    have bvalid: "Specification_isValidBBAN spec ?bban = Returns True"
      using v(1) long r t by (simp add: Specification_isValidBBAN_def)
    note bban = Specification_isValidBBAN_True(2) [OF wf bvalid]
    from prepared_reduction(2) [OF cc bban chk digits] v(4) parts
    have "(decimal_value ?X * 100 + decimal_value ?chk) mod 97 = 1"
      by simp
    from check_digits_unique [OF this range]
    have "zero_pad2 (98 - (decimal_value ?X * 100) mod 97) = zero_pad2 (decimal_value ?chk)"
      by simp
    also have "\<dots> = ?chk"
      by (rule two_digit_string [OF chk digits])
    finally have "Specification_fromBBAN spec ?bban = Returns (?cc @ ?chk @ ?bban)"
      using Specification_fromBBAN_result(2) [OF assms bvalid] by simp
    with parts show "Specification_fromBBAN spec (drop 4 iban) = Returns iban"
      by simp
  }
qed

theorem fromBBAN_check_digits_witness:
  "country_specification (new_Specification ''BE'' 16 ''F03F07F02'' ''BE68539007547034'')
   \<and> Specification_isValidBBAN (new_Specification ''BE'' 16 ''F03F07F02'' ''BE68539007547034'')
        ''539007547034'' = Returns True
   \<and> Specification_fromBBAN (new_Specification ''BE'' 16 ''F03F07F02'' ''BE68539007547034'')
        ''539007547034'' = Returns ''BE68539007547034''
   \<and> iso7064Mod9710 (iso13616Prepare ''BE68539007547034'') = Returns (Num 1)"
proof -
  let ?BE = "new_Specification ''BE'' 16 ''F03F07F02'' ''BE68539007547034''"
  have spec: "country_specification ?BE"
    by (simp add: country_specification_def new_Specification_def class_code_def char_defs
        decimal_value_def digit_value_def)
  have bban: "Specification_isValidBBAN ?BE ''539007547034'' = Returns True"
    by (simp add: Specification_isValidBBAN_def regex_BE)
      (simp add: new_Specification_def regex_eval eval_defs)
  have valid: "Specification_isValid ?BE ''BE68539007547034'' = Returns True"
    by (simp add: Specification_isValid_def regex_BE)
      (simp add: new_Specification_def spec_eval regex_eval eval_defs)
  have chk: "list_all is_digit (check_digits ''BE68539007547034'')
      \<and> 2 \<le> decimal_value (check_digits ''BE68539007547034'')
      \<and> decimal_value (check_digits ''BE68539007547034'') \<le> 98"
    by (simp add: check_digits_def eval_defs)
  note inst = fromBBAN_check_digits [OF spec, of "''539007547034''" "''BE68539007547034''"]
  from inst valid chk
  have round: "Specification_fromBBAN ?BE (drop 4 ''BE68539007547034'') = Returns ''BE68539007547034''"
    by blast
  then have gen: "Specification_fromBBAN ?BE ''539007547034'' = Returns ''BE68539007547034''"
    by simp
  from inst bban obtain remainder where
    built: "Specification_fromBBAN ?BE ''539007547034''
       = Returns (countryCode ?BE @ zero_pad2 (98 - remainder) @ ''539007547034'')"
    and one: "iso7064Mod9710
           (iso13616Prepare (countryCode ?BE @ zero_pad2 (98 - remainder) @ ''539007547034''))
         = Returns (Num 1)"
    by blast
  from built [symmetric] gen
  have "Returns (countryCode ?BE @ zero_pad2 (98 - remainder) @ ''539007547034'')
      = Returns ''BE68539007547034''"
    by (rule trans)
  then have "countryCode ?BE @ zero_pad2 (98 - remainder) @ ''539007547034'' = ''BE68539007547034''"
    by (simp only: outcome.inject)
  with one have "iso7064Mod9710 (iso13616Prepare ''BE68539007547034'') = Returns (Num 1)"
    by (simp only:)
  with spec bban gen show ?thesis
    by simp
qed

text \<open>
  C3 as stated fails in its last part. \<open>BE01000000000081\<close> is a valid IBAN (the
  reduction of its prepared form is 1), but its check digits \<open>01\<close> are not what
  \<open>fromBBAN\<close> generates: from the country code and the BBAN part it builds
  \<open>BE98000000000081\<close>.
\<close>

theorem fromBBAN_roundtrip_counterexample:
  "isValid (JString ''BE01000000000081'') = Returns True
   \<and> electronicFormat (drop 4 ''BE01000000000081'') = drop 4 ''BE01000000000081''
   \<and> fromBBAN ''BE'' (drop 4 ''BE01000000000081'') = Returns ''BE98000000000081''
   \<and> ''BE98000000000081'' \<noteq> ''BE01000000000081''"
proof -
  let ?BE = "new_Specification ''BE'' 16 ''F03F07F02'' ''BE68539007547034''"
  have n1: "electronicFormat ''BE01000000000081'' = ''BE01000000000081''"
    by (rule normalized_electronicFormat) (simp add: char_defs)
  have n2: "electronicFormat ''000000000081'' = ''000000000081''"
    by (rule normalized_electronicFormat) (simp add: char_defs)
  have valid: "Specification_isValid ?BE ''BE01000000000081'' = Returns True"
    by (simp add: Specification_isValid_def regex_BE)
      (simp add: new_Specification_def spec_eval regex_eval eval_defs)
  have gen: "Specification_fromBBAN ?BE ''000000000081'' = Returns ''BE98000000000081''"
    by (simp add: Specification_fromBBAN_def Specification_isValidBBAN_def regex_BE)
      (simp add: new_Specification_def spec_eval regex_eval eval_defs)
  have "isValid (JString ''BE01000000000081'') = Returns True"
    by (simp add: isValid_def n1 getCountry_BE valid)
  moreover have "fromBBAN ''BE'' ''000000000081'' = Returns ''BE98000000000081''"
    by (simp add: fromBBAN_def n2 getCountry_BE gen)
  ultimately show ?thesis
    using n2 by simp
qed

text \<open>
  C4 (the predicates \<open>isValid\<close> and \<open>isValidBBAN\<close> return \<open>false\<close> on every input and
  never raise). \<open>isValid\<close> does: it catches every error and always returns
  (\<open>isValid_returns\<close>). \<open>isValidBBAN\<close> does not: it calls \<open>getCountry\<close> outside any
  \<open>try\<close>, so for a string and a country code that the registry does not have it
  throws, where \<open>isValid\<close> returns \<open>false\<close>.
\<close>

theorem isValidBBAN_unknown_country_throws:
  "isValidBBAN ''ZZ'' (JString ''539007547034'') = Throws (NoCountry ''ZZ'')
   \<and> isValid (JString ''ZZ68539007547034'') = Returns False"
proof -
  have g: "getCountry ''ZZ'' = Throws (NoCountry ''ZZ'')"
    by (simp add: getCountry_def COUNTRIES_get_def COUNTRIES_ZZ Object_prototype_keys_def)
  have "electronicFormat ''ZZ68539007547034'' = ''ZZ68539007547034''"
    by (rule normalized_electronicFormat) (simp add: char_defs)
  with g show ?thesis
    by (simp add: isValidBBAN_def isValid_def)
qed

text \<open>
  C5. \<open>Specification.toBBAN\<close> matches the text from offset 4 against the compiled
  matcher. When it matches, the result is the captured blocks joined by the separator
  in the order of the descriptor; the blocks are consecutive pieces of that text, one for
  each group and of its width (for a well-formed descriptor, of the length its block
  declares). It throws \<open>Invalid IBAN\<close> exactly when the text does not match. In
  particular \<open>toBBAN("BE68 5390 0754 7034", "-")\<close> is \<open>539-0075470-34\<close>.
\<close>

theorem Specification_toBBAN_blocks:
  assumes "regex spec = Returns r"
  shows "(RegExp_test r (drop 4 iban) \<longrightarrow>
          (\<exists>blocks. exec_groups r (drop 4 iban) = Some blocks
             \<and> concat blocks = drop 4 iban
             \<and> map length blocks = map group_width r
             \<and> (wellformed (structure spec) \<longrightarrow>
                  map length blocks = block_lengths (structure spec))
             \<and> Specification_toBBAN spec iban separator = Returns (join separator blocks)))
    \<and> (Specification_toBBAN spec iban separator = Throws InvalidIBAN
          \<longleftrightarrow> \<not> RegExp_test r (drop 4 iban))
    \<and> toBBAN ''BE68 5390 0754 7034'' (Some ''-'') = Returns ''539-0075470-34''"
proof (intro conjI impI)
  assume "RegExp_test r (drop 4 iban)"
  then obtain blocks where blocks: "exec_groups r (drop 4 iban) = Some blocks"
    by (auto simp: RegExp_test_exec_groups)
  have widths: "map group_width r = block_lengths (structure spec)"
    if "wellformed (structure spec)"
    using assms parseStructure_Returns [of "structure spec" r] wellformed_blocks [OF that]
    by (simp add: regex_def)
  have "Specification_toBBAN spec iban separator = Returns (join separator blocks)"
    by (simp add: Specification_toBBAN_def assms RegExp_exec_def blocks)
  with exec_groups_Some [OF blocks] widths blocks
  show "\<exists>blocks. exec_groups r (drop 4 iban) = Some blocks
             \<and> concat blocks = drop 4 iban
             \<and> map length blocks = map group_width r
             \<and> (wellformed (structure spec) \<longrightarrow>
                  map length blocks = block_lengths (structure spec))
             \<and> Specification_toBBAN spec iban separator = Returns (join separator blocks)"
    by simp
next
  show "Specification_toBBAN spec iban separator = Throws InvalidIBAN
          \<longleftrightarrow> \<not> RegExp_test r (drop 4 iban)"
    by (cases "exec_groups r (drop 4 iban)")
      (simp_all add: Specification_toBBAN_def assms RegExp_test_def RegExp_exec_def)
next
  have "electronicFormat ''BE68 5390 0754 7034'' = ''BE68539007547034''"
    by (simp add: public_eval spec_eval char_defs)
  then show "toBBAN ''BE68 5390 0754 7034'' (Some ''-'') = Returns ''539-0075470-34''"
    by (simp add: toBBAN_def getCountry_BE default_separator_def Specification_toBBAN_def
        regex_BE regex_eval eval_defs)
qed

theorem Specification_toBBAN_blocks_witness:
  "Specification_toBBAN (new_Specification ''BE'' 16 ''F03F07F02'' ''BE68539007547034'')
      ''BE68539007547034'' ''-'' = Returns ''539-0075470-34''
   \<and> Specification_toBBAN (new_Specification ''BE'' 16 ''F03F07F02'' ''BE68539007547034'')
      ''BE68 5390 0754 7034'' ''-'' = Throws InvalidIBAN"
proof -
  let ?BE = "new_Specification ''BE'' 16 ''F03F07F02'' ''BE68539007547034''"
  let ?r = "[[CharClass ''0-9'' 3], [CharClass ''0-9'' 7], [CharClass ''0-9'' 2]]"
  have yes: "exec_groups ?r (drop 4 ''BE68539007547034'') = Some [''539'', ''0075470'', ''34'']"
    by (simp add: regex_eval eval_defs)
  have no: "\<not> RegExp_test ?r (drop 4 ''BE68 5390 0754 7034'')"
    by (simp add: regex_eval eval_defs)
  from yes have t: "RegExp_test ?r (drop 4 ''BE68539007547034'')"
    by (simp add: RegExp_test_exec_groups)
  from Specification_toBBAN_blocks [OF regex_BE, of "''BE68539007547034''" "''-''"] t yes
  have "Specification_toBBAN ?BE ''BE68539007547034'' ''-'' = Returns ''539-0075470-34''"
    by simp
  moreover
  from Specification_toBBAN_blocks [OF regex_BE, of "''BE68 5390 0754 7034''" "''-''"] no
  have "Specification_toBBAN ?BE ''BE68 5390 0754 7034'' ''-'' = Throws InvalidIBAN"
    by simp
  ultimately show ?thesis
    by simp
qed

text \<open>
  C6, as amended. \<open>parseStructure\<close> throws exactly when the descriptor holds no three
  consecutive characters free of line terminators, as every descriptor shorter than
  three characters. A descriptor of three or more characters without line terminators
  compiles, without error, to one group for each complete block of three characters:
  characters left over at the end are ignored, and a block with an unrecognized class
  code becomes a group over the class \<open>[undefined]\<close>.
\<close>

theorem parseStructure_throws:
  "(parseStructure d = Throws ParseStructureError \<longleftrightarrow> match_every_three d = [])
   \<and> (length d < 3 \<longrightarrow> parseStructure d = Throws ParseStructureError)
   \<and> (3 \<le> length d \<and> list_all (\<lambda>c. \<not> is_line_terminator c) d \<longrightarrow>
        parseStructure d = Returns (map compile_block (match_every_three d))
        \<and> length (match_every_three d) = length d div 3)
   \<and> (\<not> class_code k \<longrightarrow> block_format k = ''undefined'')"
proof -
  have a: "parseStructure d = Throws ParseStructureError \<longleftrightarrow> match_every_three d = []"
    by (cases "match_every_three d") (simp_all add: parseStructure_def)
  have b: "parseStructure d = Throws ParseStructureError" if "length d < 3"
    using that by (simp add: a match_every_three_short)
  have c: "parseStructure d = Returns (map compile_block (match_every_three d))
        \<and> length (match_every_three d) = length d div 3"
    if "3 \<le> length d" and "list_all (\<lambda>c. \<not> is_line_terminator c) d"
  proof -
    from that have len: "length (match_every_three d) = length d div 3"
      by (simp add: match_every_three_length)
    with that(1) have "match_every_three d \<noteq> []"
      by (auto simp: div_eq_0_iff)
    with len show ?thesis
      by (cases "match_every_three d") (simp_all add: parseStructure_def)
  qed
  have e: "block_format k = ''undefined''" if "\<not> class_code k"
    using that by (simp add: class_code_cases block_format_def)
  from a b c e show ?thesis
    by blast
qed

theorem parseStructure_throws_witness:
  "parseStructure ''F1'' = Throws ParseStructureError
   \<and> parseStructure ''F03F07F02''
       = Returns [[CharClass ''0-9'' 3], [CharClass ''0-9'' 7], [CharClass ''0-9'' 2]]
   \<and> length (match_every_three ''F03F07F02'') = 3
   \<and> block_format (CHR ''X'') = ''undefined''"
proof -
  have short: "length ''F1'' < 3"
    by simp
  have long: "3 \<le> length ''F03F07F02'' \<and> list_all (\<lambda>c. \<not> is_line_terminator c) ''F03F07F02''"
    by (simp add: char_defs)
  have x: "\<not> class_code (CHR ''X'')"
    by (simp add: class_code_def)
  have m: "map compile_block (match_every_three ''F03F07F02'')
      = [[CharClass ''0-9'' 3], [CharClass ''0-9'' 7], [CharClass ''0-9'' 2]]"
    by (simp add: regex_eval eval_defs)
  show ?thesis
    using parseStructure_throws [of "''F1''" "CHR ''X''"]
      parseStructure_throws [of "''F03F07F02''" "CHR ''X''"] short long x m
    by simp
qed

text \<open>
  C6 as stated fails. The descriptor \<open>X03\<close> has an unrecognized class code and
  \<open>F03F1\<close> a length that is not a multiple of 3; both compile without error, the
  first to a matcher that accepts \<open>fin\<close>, the second to the matcher of \<open>F03\<close>.
\<close>

theorem parseStructure_silent_counterexample:
  "\<not> class_code (CHR ''X'')
   \<and> parseStructure ''X03'' = Returns [[CharClass ''undefined'' 3]]
   \<and> RegExp_test [[CharClass ''undefined'' 3]] ''fin''
   \<and> length ''F03F1'' mod 3 \<noteq> 0
   \<and> parseStructure ''F03F1'' = Returns [[CharClass ''0-9'' 3]]
   \<and> parseStructure ''F03'' = Returns [[CharClass ''0-9'' 3]]"
  by (simp add: class_code_def regex_eval eval_defs)

text \<open>
  C7. On a string of digits and uppercase letters, \<open>iso13616Prepare\<close> moves the first
  four characters to the end and replaces every letter by the decimal numeral of its
  ordinal minus the ordinal of \<open>A\<close> plus 10, a number from 10 to 35; the result consists
  of decimal digits only, and every letter of the input contributes two of them.
\<close>

theorem iso13616Prepare_digits:
  assumes "list_all (\<lambda>c. is_digit c \<or> is_upper c) iban"
  shows "iso13616Prepare iban =
           concat (map (\<lambda>c. if is_upper c
                             then decimal_string (codePointAt c - codePointAt (CHR ''A'') + 10)
                             else [c])
                    (drop 4 iban @ take 4 iban))
         \<and> (\<forall>c \<in> set iban. is_upper c \<longrightarrow>
               10 \<le> codePointAt c - codePointAt (CHR ''A'') + 10
               \<and> codePointAt c - codePointAt (CHR ''A'') + 10 \<le> 35
               \<and> length (letter_to_digits c) = 2)
         \<and> list_all is_digit (iso13616Prepare iban)
         \<and> length (iso13616Prepare iban) = length iban + length (filter is_upper iban)"
proof -
  let ?val = "drop 4 iban @ take 4 iban"
  have rot: "list_all (\<lambda>c. is_digit c \<or> is_upper c) ?val"
    using assms by (simp add: list_all_take list_all_drop)
  have prep: "iso13616Prepare iban = replace_letters ?val"
    by (simp add: iso13616Prepare_def toUpperCase_id [OF assms])
  have "map letter_to_digits ?val =
      map (\<lambda>c. if is_upper c
                 then decimal_string (codePointAt c - codePointAt (CHR ''A'') + 10)
                 else [c]) ?val"
    by (rule map_cong [OF refl]) (simp add: letter_to_digits_upper, simp add: letter_to_digits_def)
  then have first: "iso13616Prepare iban =
           concat (map (\<lambda>c. if is_upper c
                             then decimal_string (codePointAt c - codePointAt (CHR ''A'') + 10)
                             else [c]) ?val)"
    by (simp only: prep replace_letters_def)
  have letters: "\<forall>c \<in> set iban. is_upper c \<longrightarrow>
               10 \<le> codePointAt c - codePointAt (CHR ''A'') + 10
               \<and> codePointAt c - codePointAt (CHR ''A'') + 10 \<le> 35
               \<and> length (letter_to_digits c) = 2"
    using letter_value_range letter_to_digits_length by blast
  have digits: "list_all is_digit (iso13616Prepare iban)"
    unfolding prep by (rule replace_letters_digits [OF rot])
  have "length (iso13616Prepare iban) = length ?val + length (filter is_upper ?val)"
    unfolding prep by (rule replace_letters_length [OF rot])
  then have len: "length (iso13616Prepare iban) = length iban + length (filter is_upper iban)"
    by (simp only: filter_rotate) simp
  from first letters digits len show ?thesis
    by blast
qed

theorem iso13616Prepare_digits_witness:
  "list_all (\<lambda>c. is_digit c \<or> is_upper c) ''GB29NWBK60161331926819''
   \<and> iso13616Prepare ''GB29NWBK60161331926819'' = ''2332112060161331926819161129''
   \<and> list_all is_digit (iso13616Prepare ''GB29NWBK60161331926819'')
   \<and> length (iso13616Prepare ''GB29NWBK60161331926819'') = 22 + 6"
proof -
  have h: "list_all (\<lambda>c. is_digit c \<or> is_upper c) ''GB29NWBK60161331926819''"
    by (simp add: char_defs)
  have u: "length (filter is_upper ''GB29NWBK60161331926819'') = 6"
    by (simp add: char_defs)
  show ?thesis
    using iso13616Prepare_digits [OF h] h u by (simp add: eval_defs)
qed

text \<open>
  C8. \<open>electronicFormat\<close> keeps exactly the characters of \<open>[0-9A-Za-z]\<close>, in their order,
  and turns each lowercase letter into the uppercase letter; the result holds digits
  and uppercase letters only, and formatting it again changes nothing.
\<close>

theorem electronicFormat_idempotent:
  "electronicFormat x =
     map (\<lambda>c. if is_lower c then char_of (codePointAt c - 32) else c) (filter is_alnum x)
   \<and> list_all (\<lambda>c. is_digit c \<or> is_upper c) (electronicFormat x)
   \<and> electronicFormat (electronicFormat x) = electronicFormat x"
proof -
  have "electronicFormat x =
     map (\<lambda>c. if is_lower c then char_of (codePointAt c - 32) else c) (filter is_alnum x)"
    by (simp add: electronicFormat_alnum toUpperCase_char_def [abs_def])
  then show ?thesis
    using electronicFormat_normalized [of x] electronicFormat_idem [of x] by simp
qed

theorem electronicFormat_idempotent_witness:
  "electronicFormat ''be68 5390-0754.7034'' = ''BE68539007547034''
   \<and> electronicFormat ''BE68539007547034'' = ''BE68539007547034''"
proof -
  have e: "electronicFormat ''be68 5390-0754.7034'' = ''BE68539007547034''"
    by (simp add: electronicFormat_def NON_ALPHANUM_def toUpperCase_def toUpperCase_char_def
        char_defs char_of_eq_iff)
  have "electronicFormat (electronicFormat ''be68 5390-0754.7034'')
      = electronicFormat ''be68 5390-0754.7034''"
    using electronicFormat_idempotent [of "''be68 5390-0754.7034''"] by (rule conjunct2 [THEN conjunct2])
  then have "electronicFormat ''BE68539007547034'' = ''BE68539007547034''"
    by (simp only: e)
  with e show ?thesis
    by (rule conjI)
qed

text \<open>
  C9. \<open>printFormat(x, " ")\<close> is the normalized text in groups of four characters joined by
  one space (the omitted separator is that space); normalizing it again gives the
  normalized \<open>x\<close>; and \<open>printFormat("BE68539007547034")\<close> is \<open>BE68 5390 0754 7034\<close>.
\<close>

theorem printFormat_left_inverse:
  "printFormat x (Some '' '') = join '' '' (group_four (electronicFormat x))
   \<and> printFormat x None = printFormat x (Some '' '')
   \<and> electronicFormat (printFormat x (Some '' '')) = electronicFormat x
   \<and> printFormat ''BE68539007547034'' None = ''BE68 5390 0754 7034''"
proof -
  have groups: "printFormat x (Some '' '') = join '' '' (group_four (electronicFormat x))" for x
    by (rule printFormat_groups) simp
  have default: "printFormat x None = printFormat x (Some '' '')" for x
    by (simp add: printFormat_def default_separator_def)
  have "electronicFormat (printFormat x (Some '' '')) = electronicFormat x"
    by (simp only: groups electronicFormat_join_space concat_group_four electronicFormat_idem)
  moreover have "electronicFormat ''BE68539007547034'' = ''BE68539007547034''"
    by (rule normalized_electronicFormat) (simp add: char_defs)
  then have "printFormat ''BE68539007547034'' None = ''BE68 5390 0754 7034''"
    by (simp add: default groups)
  ultimately show ?thesis
    using groups default by simp
qed

theorem printFormat_left_inverse_witness:
  "printFormat ''be68-5390 0754 7034'' (Some '' '') = ''BE68 5390 0754 7034''
   \<and> electronicFormat ''BE68 5390 0754 7034'' = electronicFormat ''be68-5390 0754 7034''"
proof -
  have e: "electronicFormat ''be68-5390 0754 7034'' = ''BE68539007547034''"
    by (simp add: electronicFormat_def NON_ALPHANUM_def toUpperCase_def toUpperCase_char_def
        char_defs char_of_eq_iff)
  have "printFormat ''be68-5390 0754 7034'' (Some '' '')
      = join '' '' (group_four (electronicFormat ''be68-5390 0754 7034''))"
    using printFormat_left_inverse [of "''be68-5390 0754 7034''"] by (rule conjunct1)
  then have p: "printFormat ''be68-5390 0754 7034'' (Some '' '') = ''BE68 5390 0754 7034''"
    by (simp add: e)
  have "electronicFormat (printFormat ''be68-5390 0754 7034'' (Some '' ''))
      = electronicFormat ''be68-5390 0754 7034''"
    using printFormat_left_inverse [of "''be68-5390 0754 7034''"]
    by (rule conjunct2 [THEN conjunct2, THEN conjunct1])
  then have "electronicFormat ''BE68 5390 0754 7034'' = electronicFormat ''be68-5390 0754 7034''"
    by (simp only: p)
  with p show ?thesis
    by (rule conjI)
qed

text \<open>
  C10, as amended. For a well-formed descriptor in the sense of the data model (every
  block a recognized class code followed by a length of two decimal digits) the compiled
  matcher, which exists unless the descriptor is empty, accepts a string only if its
  length is the sum of the block lengths. So, where the block lengths sum to the
  declared length minus 4, the length comparison of \<open>Specification.isValidBBAN\<close>
  follows from the matcher test: the method returns what the test alone returns.
\<close>

theorem wellformed_matcher_length:
  assumes "wellformed (structure spec)"
  shows "(structure spec \<noteq> [] \<longrightarrow> (\<exists>r. regex spec = Returns r))
    \<and> (\<forall>r. regex spec = Returns r \<longrightarrow>
          (RegExp_test r s \<longrightarrow> length s = sum_list (block_lengths (structure spec)))
          \<and> (length_iban spec - 4 = int (sum_list (block_lengths (structure spec))) \<longrightarrow>
                Specification_isValidBBAN spec bban = Returns (RegExp_test r bban)))"
proof (intro conjI allI impI)
  assume "structure spec \<noteq> []"
  with assms show "\<exists>r. regex spec = Returns r"
    by (simp add: regex_def wellformed_parseStructure)
next
  fix r
  assume r: "regex spec = Returns r"
  then have widths: "map group_width r = block_lengths (structure spec)"
    using parseStructure_Returns [of "structure spec" r] wellformed_blocks [OF assms]
    by (simp add: regex_def)
  {
    assume "RegExp_test r s"
    from RegExp_test_length [OF this] widths
    show "length s = sum_list (block_lengths (structure spec))"
      by simp
  }
  {
    assume sum: "length_iban spec - 4 = int (sum_list (block_lengths (structure spec)))"
    show "Specification_isValidBBAN spec bban = Returns (RegExp_test r bban)"
    proof (cases "RegExp_test r bban")
      case True
      from RegExp_test_length [OF this] widths sum True show ?thesis
        by (simp add: Specification_isValidBBAN_def r)
    next
      case False
      then show ?thesis
        by (simp add: Specification_isValidBBAN_def r)
    qed
  }
qed

theorem wellformed_matcher_length_witness:
  "wellformed ''F03F07F02''
   \<and> sum_list (block_lengths ''F03F07F02'') = 12
   \<and> RegExp_test [[CharClass ''0-9'' 3], [CharClass ''0-9'' 7], [CharClass ''0-9'' 2]] ''539007547034''
   \<and> length ''539007547034'' = 12
   \<and> Specification_isValidBBAN (new_Specification ''BE'' 16 ''F03F07F02'' ''BE68539007547034'')
        ''539007547034'' = Returns True"
proof -
  let ?BE = "new_Specification ''BE'' 16 ''F03F07F02'' ''BE68539007547034''"
  let ?r = "[[CharClass ''0-9'' 3], [CharClass ''0-9'' 7], [CharClass ''0-9'' 2]]"
  have wf: "wellformed (structure ?BE)"
    by (simp add: new_Specification_def class_code_def char_defs)
  have total: "sum_list (block_lengths (structure ?BE)) = 12"
    by (simp add: new_Specification_def eval_defs)
  have len: "length_iban ?BE - 4 = 12"
    by (simp add: new_Specification_def)
  have t: "RegExp_test ?r ''539007547034''"
    by (simp add: regex_eval eval_defs)
  have "Specification_isValidBBAN ?BE ''539007547034'' = Returns (RegExp_test ?r ''539007547034'')"
    using wellformed_matcher_length [OF wf, of "''539007547034''" "''539007547034''"]
      regex_BE total len by simp
  with wf total t show ?thesis
    by (simp add: new_Specification_def)
qed

text \<open>
  C10 as stated fails: a length that is a multiple of 3 and recognized class codes are not
  enough. In \<open>F-1\<close> the length field is \<open>-1\<close>, which \<open>parseInt\<close> reads as the number
  -1; \<open>{-1}\<close> is then no quantifier, and the matcher \<open>^([0-9]{-1})$\<close> accepts
  \<open>5{-1}\<close>, a string of 5 characters, whatever is taken as the sum of the block lengths.
\<close>

theorem wellformed_matcher_length_counterexample:
  "length ''F-1'' mod 3 = 0
   \<and> class_code (CHR ''F'')
   \<and> \<not> wellformed ''F-1''
   \<and> parseInt ''-1'' = Num (- 1)
   \<and> parseStructure ''F-1''
       = Returns [[CharClass ''0-9'' 1, PatternChar (CHR ''{''), PatternChar (CHR ''-''),
                   PatternChar (CHR ''1''), PatternChar (CHR ''}'')]]
   \<and> RegExp_test [[CharClass ''0-9'' 1, PatternChar (CHR ''{''), PatternChar (CHR ''-''),
                     PatternChar (CHR ''1''), PatternChar (CHR ''}'')]] ''5{-1}''
   \<and> length ''5{-1}'' = 5
   \<and> sum_list (block_lengths ''F-1'') = 1"
  by (simp add: class_code_def regex_eval eval_defs)

end
